theory Spec2Isabelle
  imports Complex_Main "HOL-Library.Option_ord" "HOL-Library.Sublist"
begin

section \<open>Values of the session analyzer (dashboard.py)\<close>

text \<open>
  The dashboard reads six tables of an agent-run log with \<open>SELECT *\<close>, so a table is a set
  of column names and a list of rows. A cell is \<open>None\<close> when it is NULL (\<open>None\<close>, \<open>NaN\<close> or
  \<open>NaT\<close> in pandas, the values on which \<open>pd.notna\<close> is false). Identifiers and session ids
  are integers or strings; Python's truth test on them is \<open>truthy\<close>. Timestamps are
  instants counted in nanoseconds, as pandas stores them, all of one kind (all naive or all
  with a time zone): pandas refuses to compare or to subtract a naive and an aware instant,
  and a database that mixes them is outside the model. A text is a list of characters with
  code points below 256, the type \<open>char\<close>.
\<close>

datatype ident = IdInt int | IdStr string

type_synonym cell = "ident option"

type_synonym time = "int option"

fun truthy :: "ident \<Rightarrow> bool" where
  "truthy (IdInt n) = (n \<noteq> 0)"
| "truthy (IdStr s) = (s \<noteq> [])"

text \<open>
  A finite float is the real number it stands for. \<open>npfloat\<close> adds the three non-finite
  values that a numpy division produces instead of raising. The division of the enrichment
  is taken exact; the sum of a float column, whose order of additions and rounding are
  pandas', is a parameter of the model (see \<open>cost_sum\<close>).
\<close>

datatype npfloat = Fin real | PosInf | NegInf | NaN

text \<open>
  The columns \<open>*_dict\<close> hold what \<open>safe_json_loads\<close> returned: any JSON value (an empty
  object when the text did not parse). An object is the list of its items.
\<close>

datatype json =
    JNull
  | JBool bool
  | JInt int
  | JFloat npfloat
  | JStr string
  | JArr "json list"
  | JObj "(string \<times> json) list"

datatype py_error =
  AttributeError | TypeError | ValueError | OverflowError | KeyError | ZeroDivisionError

record 'r table =
  columns :: "string set"
  rows :: "'r list"

text \<open>\<open>row.get(col, default)\<close> on a row of a table with the columns \<open>cols\<close>.\<close>

definition row_get :: "string set \<Rightarrow> string \<Rightarrow> 'a \<Rightarrow> 'a \<Rightarrow> 'a" where
  "row_get cols c v d = (if c \<in> cols then v else d)"

text \<open>\<open>d.get(key, default)\<close> on a parsed JSON value: only an object has \<open>get\<close>.\<close>

fun dict_get :: "json \<Rightarrow> string \<Rightarrow> json \<Rightarrow> py_error + json" where
  "dict_get (JObj kvs) k d = Inr (case map_of kvs k of None \<Rightarrow> d | Some v \<Rightarrow> v)"
| "dict_get _ k d = Inl AttributeError"

record agent_row =
  ag_timestamp :: time
  ag_session_id :: cell
  ag_wrapper_id :: cell
  ag_agent_id :: cell
  ag_source_name :: cell
  ag_agent_class_name :: cell
  ag_config_dict :: json

record event_row =
  ev_timestamp :: time
  ev_session_id :: cell
  ev_source_id :: cell
  ev_source_name :: cell
  ev_event_name :: cell
  ev_state_dict :: json

text \<open>
  A chat-completion row with the columns the enrichment of \<open>load_database\<close> adds
  (\<open>total_tokens\<close> to \<open>completion_ratio\<close>); they are read only where the table's \<open>columns\<close>
  list them.
\<close>

record cc_row =
  cc_start_time :: time
  cc_end_time :: time
  cc_session_id :: cell
  cc_client_id :: cell
  cc_invocation_id :: cell
  cc_wrapper_id :: cell
  cc_source_name :: cell
  cc_request_dict :: json
  cc_response_dict :: json
  cc_cost :: "real option"
  cc_latency :: cell
  cc_is_cached :: cell
  cc_total_tokens :: int
  cc_prompt_tokens :: int
  cc_completion_tokens :: int
  cc_cost_per_token :: npfloat
  cc_completion_ratio :: npfloat

record function_call_row =
  fc_timestamp :: time
  fc_session_id :: cell
  fc_source_id :: cell
  fc_source_name :: cell
  fc_function_name :: cell
  fc_args_dict :: json
  fc_returns_dict :: json

record client_row =
  cl_timestamp :: time
  cl_session_id :: cell
  cl_client_id :: cell
  cl_wrapper_id :: cell
  cl_config_dict :: json

record wrapper_row =
  wr_timestamp :: time
  wr_session_id :: cell
  wr_wrapper_id :: cell
  wr_config_dict :: json

record tables =
  agents :: "agent_row table"
  chat_completions :: "cc_row table"
  events :: "event_row table"
  function_calls :: "function_call_row table"
  oai_clients :: "client_row table"
  oai_wrappers :: "wrapper_row table"

section \<open>load_database: enrichment of the chat completions\<close>

text \<open>
  Python's \<open>int(x)\<close> on a parsed JSON value. On a text, \<open>int\<close> skips white space at both
  ends, reads an optional sign and then decimal digits, a single underscore allowed between
  two digits, and refuses more than 4300 digits (the default of
  \<open>sys.int_info.default_max_str_digits\<close>). The white space it skips is the ASCII one
  (tab to carriage return, and the blank) and, of the other characters below 256, the next
  line character \<open>0x85\<close> and the no-break space \<open>0xA0\<close>; the separators \<open>0x1C\<close> to \<open>0x1F\<close>
  are not skipped. The only decimal digits below 256 are \<open>0\<close> to \<open>9\<close>.
\<close>

definition is_space :: "char \<Rightarrow> bool" where
  "is_space c =
     (c \<in> set [CHR 0x09, CHR 0x0A, CHR 0x0B, CHR 0x0C, CHR 0x0D, CHR 0x20, CHR 0x85, CHR 0xA0])"

definition trim :: "string \<Rightarrow> string" where
  "trim s = rev (dropWhile is_space (rev (dropWhile is_space s)))"

definition digit_val :: "char \<Rightarrow> int option" where
  "digit_val c =
     (let n = (of_char c :: nat)
      in if 48 \<le> n \<and> n \<le> 57 then Some (int n - 48) else None)"

text \<open>
  \<open>digits acc after_digit s\<close>: the value of the digit string \<open>s\<close> read after \<open>acc\<close>;
  \<open>after_digit\<close> tells whether the character before was a digit, the only place where an
  underscore or the end may come.
\<close>

fun digits :: "int \<Rightarrow> bool \<Rightarrow> string \<Rightarrow> int option" where
  "digits acc after_digit [] = (if after_digit then Some acc else None)"
| "digits acc after_digit (c # cs) =
     (if c = CHR ''_'' then (if after_digit then digits acc False cs else None)
      else case digit_val c of
          None \<Rightarrow> None
        | Some d \<Rightarrow> digits (10 * acc + d) True cs)"

definition numeral_value :: "string \<Rightarrow> int option" where
  "numeral_value s =
     (if length (filter (\<lambda>c. digit_val c \<noteq> None) s) > 4300 then None
      else digits 0 False s)"

definition parse_int :: "string \<Rightarrow> int option" where
  "parse_int s =
     (case trim s of
        [] \<Rightarrow> None
      | c # cs \<Rightarrow>
          if c = CHR ''-'' then map_option uminus (numeral_value cs)
          else if c = CHR ''+'' then numeral_value cs
          else numeral_value (c # cs))"

fun py_int :: "json \<Rightarrow> py_error + int" where
  "py_int (JInt n) = Inr n"
| "py_int (JBool b) = Inr (if b then 1 else 0)"
| "py_int (JFloat (Fin r)) = Inr (if 0 \<le> r then \<lfloor>r\<rfloor> else \<lceil>r\<rceil>)"
| "py_int (JFloat NaN) = Inl ValueError"
| "py_int (JFloat PosInf) = Inl OverflowError"
| "py_int (JFloat NegInf) = Inl OverflowError"
| "py_int (JStr s) = (case parse_int s of None \<Rightarrow> Inl ValueError | Some n \<Rightarrow> Inr n)"
| "py_int JNull = Inl TypeError"
| "py_int (JArr xs) = Inl TypeError"
| "py_int (JObj kvs) = Inl TypeError"

text \<open>
  What \<open>int\<close> accepts, in the words of the Python reference, against which \<open>py_int\<close> is
  checked (\<open>py_int_coerces\<close>). \<open>coerces v n\<close>: the value \<open>v\<close> is coercible to an integer,
  and \<open>n\<close> is that integer. An integer is itself, a Boolean is 0 or 1, a finite float is
  truncated towards zero, and a text must be an integer literal: white space, an optional
  sign, one or more groups of digits joined by single underscores and holding at most 4300
  digits together, white space. Null, a list, an object, NaN and the infinities are not
  coercible.
\<close>

definition is_digit :: "char \<Rightarrow> bool" where
  "is_digit c = (c \<in> set ''0123456789'')"

definition decimal :: "string \<Rightarrow> int" where
  "decimal ds = foldl (\<lambda>n c. 10 * n + (int (of_char c) - 48)) 0 ds"

definition underscored :: "string list \<Rightarrow> string" where
  "underscored gs =
     (case gs of [] \<Rightarrow> [] | g # hs \<Rightarrow> g @ concat (map (\<lambda>h. CHR ''_'' # h) hs))"

definition int_text :: "string \<Rightarrow> int \<Rightarrow> bool" where
  "int_text s n =
     (\<exists>pre sg gs post.
        s = pre @ sg @ underscored gs @ post \<and>
        list_all is_space pre \<and> list_all is_space post \<and>
        (sg = [] \<or> sg = ''+'' \<or> sg = ''-'') \<and>
        gs \<noteq> [] \<and> list_all (\<lambda>g. g \<noteq> [] \<and> list_all is_digit g) gs \<and>
        length (concat gs) \<le> 4300 \<and>
        n = (if sg = ''-'' then - decimal (concat gs) else decimal (concat gs)))"

fun coerces :: "json \<Rightarrow> int \<Rightarrow> bool" where
  "coerces (JInt m) n = (n = m)"
| "coerces (JBool b) n = (n = (if b then 1 else 0))"
| "coerces (JFloat (Fin r)) n = (n = (if r < 0 then - \<lfloor>- r\<rfloor> else \<lfloor>r\<rfloor>))"
| "coerces (JStr s) n = int_text s n"
| "coerces v n = False"

text \<open>
  The count that the usage object \<open>u\<close> gives for the key \<open>k\<close>: 0 when the key is absent,
  else the integer its value is coercible to.
\<close>

definition usage_count :: "(string \<times> json) list \<Rightarrow> string \<Rightarrow> int \<Rightarrow> bool" where
  "usage_count u k n = (case map_of u k of None \<Rightarrow> n = 0 | Some v \<Rightarrow> coerces v n)"

text \<open>
  \<open>int(usage.get(key, 0))\<close>: the default \<open>0\<close> stands for an absent key only; a key that
  is present is coerced whatever its value.
\<close>

definition usage_int :: "json \<Rightarrow> string \<Rightarrow> py_error + int" where
  "usage_int usage k =
     (case dict_get usage k (JInt 0) of
        Inl e \<Rightarrow> Inl e
      | Inr v \<Rightarrow> py_int v)"

definition extract_tokens :: "json \<Rightarrow> py_error + (int \<times> int \<times> int)" where
  "extract_tokens response_dict =
     (case dict_get response_dict ''usage'' (JObj []) of
        Inl e \<Rightarrow> Inl e
      | Inr usage \<Rightarrow>
          (case usage_int usage ''total_tokens'' of
             Inl e \<Rightarrow> Inl e
           | Inr n_total \<Rightarrow>
               (case usage_int usage ''prompt_tokens'' of
                  Inl e \<Rightarrow> Inl e
                | Inr n_prompt \<Rightarrow>
                    (case usage_int usage ''completion_tokens'' of
                       Inl e \<Rightarrow> Inl e
                     | Inr n_completion \<Rightarrow> Inr (n_total, n_prompt, n_completion)))))"

text \<open>
  The element-wise division of two pandas columns: a float (NaN when NULL) by an integer.
  Dividing by zero gives an infinity or NaN, never an exception.
\<close>

definition series_div :: "real option \<Rightarrow> int \<Rightarrow> npfloat" where
  "series_div a b =
     (case a of
        None \<Rightarrow> NaN
      | Some x \<Rightarrow>
          if b \<noteq> 0 then Fin (x / real_of_int b)
          else if 0 < x then PosInf
          else if x < 0 then NegInf
          else NaN)"

definition np_where :: "bool \<Rightarrow> npfloat \<Rightarrow> npfloat \<Rightarrow> npfloat" where
  "np_where c a b = (if c then a else b)"

text \<open>The three token columns of one row (\<open>cc['response_dict'].apply(...)\<close>).\<close>

definition set_tokens :: "cc_row \<Rightarrow> py_error + cc_row" where
  "set_tokens r =
     (case extract_tokens (cc_response_dict r) of
        Inl e \<Rightarrow> Inl e
      | Inr (n_total, n_prompt, n_completion) \<Rightarrow>
          Inr (r\<lparr>cc_total_tokens := n_total, cc_prompt_tokens := n_prompt,
                 cc_completion_tokens := n_completion\<rparr>))"

text \<open>\<open>apply\<close> visits the rows in order and stops at the first one that raises.\<close>

fun apply_rows :: "('a \<Rightarrow> py_error + 'b) \<Rightarrow> 'a list \<Rightarrow> py_error + 'b list" where
  "apply_rows f [] = Inr []"
| "apply_rows f (r # rs) =
     (case f r of
        Inl e \<Rightarrow> Inl e
      | Inr r' \<Rightarrow> (case apply_rows f rs of Inl e \<Rightarrow> Inl e | Inr rs' \<Rightarrow> Inr (r' # rs')))"

text \<open>The two \<open>np.where\<close> columns of one row, once the token columns are set.\<close>

definition set_ratios :: "cc_row \<Rightarrow> cc_row" where
  "set_ratios r =
     r\<lparr>cc_cost_per_token :=
         np_where (cc_total_tokens r > 0) (series_div (cc_cost r) (cc_total_tokens r)) (Fin 0),
       cc_completion_ratio :=
         np_where (cc_total_tokens r > 0)
           (series_div (Some (real_of_int (cc_completion_tokens r))) (cc_total_tokens r)) (Fin 0)\<rparr>"

text \<open>
  \<open>cc['source_name'] = cc['source_name'].str.upper().str.strip()\<close>, where the table has
  the column. The two pandas string methods are a parameter, \<open>str_upper_strip\<close>, from the
  cells of the column to the new cells; it is \<open>None\<close> where the \<open>.str\<close> accessor raises
  \<open>AttributeError\<close> (it refuses a column that is not text). The new cells are assigned by
  position, and a position that the result does not have becomes null.
\<close>

definition set_source_name ::
  "(cell list \<Rightarrow> cell list option) \<Rightarrow> cc_row table \<Rightarrow> py_error + cc_row list" where
  "set_source_name str_upper_strip cc =
     (if ''source_name'' \<in> columns cc then
        (case str_upper_strip (map cc_source_name (rows cc)) of
           None \<Rightarrow> Inl AttributeError
         | Some names \<Rightarrow>
             Inr (map (\<lambda>(r, v). r\<lparr>cc_source_name := v\<rparr>)
                    (zip (rows cc) (names @ replicate (length (rows cc)) None))))
      else Inr (rows cc))"

text \<open>
  The block \<open>if not cc.empty:\<close> of \<open>load_database\<close>. The columns that neither the
  timelines nor the metrics read (\<open>duration\<close>, \<open>date\<close>, \<open>hour\<close>, \<open>day_of_week\<close>, the two
  sizes) are left out; \<open>duration\<close> is where a table without \<open>start_time\<close> or \<open>end_time\<close>
  raises.
\<close>

definition enrich ::
  "(cell list \<Rightarrow> cell list option) \<Rightarrow> cc_row table \<Rightarrow> py_error + cc_row table" where
  "enrich str_upper_strip cc =
     (if rows cc = [] then Inr cc
      else if ''end_time'' \<notin> columns cc \<or> ''start_time'' \<notin> columns cc then Inl KeyError
      else case set_source_name str_upper_strip cc of
          Inl e \<Rightarrow> Inl e
        | Inr named \<Rightarrow>
            (case apply_rows set_tokens named of
               Inl e \<Rightarrow> Inl e
             | Inr rs \<Rightarrow>
                 if ''cost'' \<notin> columns cc then Inl KeyError
                 else Inr \<lparr>columns = columns cc \<union>
                              {''total_tokens'', ''prompt_tokens'', ''completion_tokens'',
                               ''cost_per_token'', ''completion_ratio''},
                           rows = map set_ratios rs\<rparr>))"

text \<open>
  \<open>load_database\<close> from the point where the six tables are read, their time columns
  converted and their JSON columns parsed. \<open>load_database_body\<close> is the \<open>try\<close> block;
  the \<open>except\<close> clause reports the error and returns \<open>None\<close>.
\<close>

definition load_database_body ::
  "(cell list \<Rightarrow> cell list option) \<Rightarrow> tables \<Rightarrow> py_error + tables" where
  "load_database_body str_upper_strip t =
     (case enrich str_upper_strip (chat_completions t) of
        Inl e \<Rightarrow> Inl e
      | Inr cc \<Rightarrow> Inr (t\<lparr>chat_completions := cc\<rparr>))"

definition load_database :: "(cell list \<Rightarrow> cell list option) \<Rightarrow> tables \<Rightarrow> tables option" where
  "load_database str_upper_strip t =
     (case load_database_body str_upper_strip t of Inl e \<Rightarrow> None | Inr t' \<Rightarrow> Some t')"

section \<open>build_unified_session_view\<close>

subsection \<open>The identity map\<close>

text \<open>
  \<open>id_to_session\<close> is filled by three loops, over the agents, the clients and the wrappers.
  Each is a left-to-right pass over the rows that threads the dictionary; an assignment
  \<open>id_to_session[k] = session_id\<close> replaces whatever \<open>k\<close> was mapped to.
\<close>

type_synonym id_map = "ident \<rightharpoonup> ident"

definition register :: "string set \<Rightarrow> string \<Rightarrow> cell \<Rightarrow> ident \<Rightarrow> id_map \<Rightarrow> id_map" where
  "register cols c v session m =
     (if c \<in> cols then (case v of None \<Rightarrow> m | Some k \<Rightarrow> m(k \<mapsto> session)) else m)"

definition register_agent :: "string set \<Rightarrow> agent_row \<Rightarrow> id_map \<Rightarrow> id_map" where
  "register_agent cols row m =
     (if ''session_id'' \<in> cols then
        (case ag_session_id row of
           None \<Rightarrow> m
         | Some session \<Rightarrow>
             register cols ''agent_id'' (ag_agent_id row) session
               (register cols ''wrapper_id'' (ag_wrapper_id row) session m))
      else m)"

definition register_client :: "string set \<Rightarrow> client_row \<Rightarrow> id_map \<Rightarrow> id_map" where
  "register_client cols row m =
     (if ''session_id'' \<in> cols then
        (case cl_session_id row of
           None \<Rightarrow> m
         | Some session \<Rightarrow>
             register cols ''wrapper_id'' (cl_wrapper_id row) session
               (register cols ''client_id'' (cl_client_id row) session m))
      else m)"

definition register_wrapper :: "string set \<Rightarrow> wrapper_row \<Rightarrow> id_map \<Rightarrow> id_map" where
  "register_wrapper cols row m =
     (if ''session_id'' \<in> cols then
        (case wr_session_id row of
           None \<Rightarrow> m
         | Some session \<Rightarrow> register cols ''wrapper_id'' (wr_wrapper_id row) session m)
      else m)"

definition register_agents :: "agent_row table \<Rightarrow> id_map \<Rightarrow> id_map" where
  "register_agents t m = fold (register_agent (columns t)) (rows t) m"

definition register_clients :: "client_row table \<Rightarrow> id_map \<Rightarrow> id_map" where
  "register_clients t m = fold (register_client (columns t)) (rows t) m"

definition register_wrappers :: "wrapper_row table \<Rightarrow> id_map \<Rightarrow> id_map" where
  "register_wrappers t m = fold (register_wrapper (columns t)) (rows t) m"

definition id_to_session :: "tables \<Rightarrow> id_map" where
  "id_to_session t =
     register_wrappers (oai_wrappers t)
       (register_clients (oai_clients t)
          (register_agents (agents t) Map.empty))"

text \<open>
  The same map in the words of the specification: the registrations of the three tables
  in processing order, each a pair of an identifier and a session, and the last
  registration of an identifier decides.
\<close>

definition registration :: "string set \<Rightarrow> string \<Rightarrow> cell \<Rightarrow> cell \<Rightarrow> (ident \<times> ident) list" where
  "registration cols c v session =
     (case (v, session) of
        (Some k, Some s) \<Rightarrow> (if c \<in> cols \<and> ''session_id'' \<in> cols then [(k, s)] else [])
      | _ \<Rightarrow> [])"

definition agent_registrations :: "agent_row table \<Rightarrow> (ident \<times> ident) list" where
  "agent_registrations t =
     concat (map (\<lambda>row. registration (columns t) ''wrapper_id'' (ag_wrapper_id row) (ag_session_id row) @
                        registration (columns t) ''agent_id'' (ag_agent_id row) (ag_session_id row))
              (rows t))"

definition client_registrations :: "client_row table \<Rightarrow> (ident \<times> ident) list" where
  "client_registrations t =
     concat (map (\<lambda>row. registration (columns t) ''client_id'' (cl_client_id row) (cl_session_id row) @
                        registration (columns t) ''wrapper_id'' (cl_wrapper_id row) (cl_session_id row))
              (rows t))"

definition wrapper_registrations :: "wrapper_row table \<Rightarrow> (ident \<times> ident) list" where
  "wrapper_registrations t =
     concat (map (\<lambda>row. registration (columns t) ''wrapper_id'' (wr_wrapper_id row) (wr_session_id row))
              (rows t))"

definition last_writer_wins :: "(ident \<times> ident) list \<Rightarrow> id_map" where
  "last_writer_wins regs = map_of (rev regs)"

definition identity_map_spec :: "tables \<Rightarrow> id_map" where
  "identity_map_spec t =
     last_writer_wins (agent_registrations (agents t) @ client_registrations (oai_clients t) @
                       wrapper_registrations (oai_wrappers t))"

subsection \<open>Unified events\<close>

text \<open>
  An event dictionary: its \<open>type\<close> and \<open>details\<close> entries are one tagged value, the tag being
  the type and the arguments the entries of \<open>details\<close> in the order the source writes them.
  \<open>invocation_id\<close> is \<open>None\<close> where the dictionary has no such key.
\<close>

datatype details =
    AgentConfig json cell cell
  | EventReceivedMessage cell json
  | EventOther cell json
  | LlmCallStart json json cell
  | LlmCallEnd json "real option" cell cell cell
  | FunctionCall cell json json
  | ClientConfig json cell
  | WrapperConfig json

datatype event_type =
    agent_config | event_received_message | event_other | llm_call_start | llm_call_end
  | function_call | client_config | wrapper_config

record event =
  timestamp :: time
  session_id :: cell
  source_name :: cell
  source_id :: cell
  invocation_id :: "cell option"
  details :: details

fun details_type :: "details \<Rightarrow> event_type" where
  "details_type (AgentConfig c k a) = agent_config"
| "details_type (EventReceivedMessage n d) = event_received_message"
| "details_type (EventOther n d) = event_other"
| "details_type (LlmCallStart r m w) = llm_call_start"
| "details_type (LlmCallEnd r c l i w) = llm_call_end"
| "details_type (FunctionCall f a r) = function_call"
| "details_type (ClientConfig c w) = client_config"
| "details_type (WrapperConfig c) = wrapper_config"

definition etype :: "event \<Rightarrow> event_type" where
  "etype e = details_type (details e)"

text \<open>
  What one row appends to \<open>unified_events\<close>, table by table. The \<open>*_dict\<close> columns are
  added by \<open>load_database\<close> to every table, so \<open>row.get\<close> finds them.
\<close>

definition agent_events :: "string set \<Rightarrow> agent_row \<Rightarrow> event list" where
  "agent_events cols row =
     (if ''timestamp'' \<in> cols \<and> ''session_id'' \<in> cols \<and> ''wrapper_id'' \<in> cols then
        [\<lparr>timestamp = ag_timestamp row,
          session_id = ag_session_id row,
          source_name = row_get cols ''source_name'' (ag_source_name row) (Some (IdStr ''Agent'')),
          source_id = ag_wrapper_id row,
          invocation_id = None,
          details = AgentConfig (ag_config_dict row)
            (row_get cols ''agent_class_name'' (ag_agent_class_name row) (Some (IdStr ''Unknown'')))
            (row_get cols ''agent_id'' (ag_agent_id row) None)\<rparr>]
      else [])"

definition event_events :: "string set \<Rightarrow> event_row \<Rightarrow> event list" where
  "event_events cols row =
     (if ''timestamp'' \<in> cols \<and> ''session_id'' \<in> cols \<and> ''source_id'' \<in> cols then
        [\<lparr>timestamp = ev_timestamp row,
          session_id = ev_session_id row,
          source_name = row_get cols ''source_name'' (ev_source_name row) (Some (IdStr ''Unknown'')),
          source_id = ev_source_id row,
          invocation_id = None,
          details =
            (if row_get cols ''event_name'' (ev_event_name row) None = Some (IdStr ''received_message'')
             then EventReceivedMessage
                    (row_get cols ''event_name'' (ev_event_name row) (Some (IdStr ''Unknown'')))
                    (ev_state_dict row)
             else EventOther
                    (row_get cols ''event_name'' (ev_event_name row) (Some (IdStr ''Unknown'')))
                    (ev_state_dict row))\<rparr>]
      else [])"

definition llm_start_event :: "string set \<Rightarrow> cc_row \<Rightarrow> json \<Rightarrow> event" where
  "llm_start_event cols row model =
     \<lparr>timestamp = cc_start_time row,
      session_id = cc_session_id row,
      source_name = row_get cols ''source_name'' (cc_source_name row) (Some (IdStr ''Unknown'')),
      source_id = cc_client_id row,
      invocation_id = Some (cc_invocation_id row),
      details = LlmCallStart (cc_request_dict row) model
                  (row_get cols ''wrapper_id'' (cc_wrapper_id row) None)\<rparr>"

definition llm_end_event :: "string set \<Rightarrow> cc_row \<Rightarrow> event" where
  "llm_end_event cols row =
     \<lparr>timestamp = cc_end_time row,
      session_id = cc_session_id row,
      source_name = row_get cols ''source_name'' (cc_source_name row) (Some (IdStr ''Unknown'')),
      source_id = cc_client_id row,
      invocation_id = Some (cc_invocation_id row),
      details = LlmCallEnd (cc_response_dict row)
                  (row_get cols ''cost'' (cc_cost row) (Some 0))
                  (row_get cols ''latency'' (cc_latency row) (Some (IdInt 0)))
                  (row_get cols ''is_cached'' (cc_is_cached row) (Some (IdInt 0)))
                  (row_get cols ''wrapper_id'' (cc_wrapper_id row) None)\<rparr>"

text \<open>
  A chat-completion row gives its two events together. The model name is read with
  \<open>.get\<close> from the parsed request, which raises when the request is not an object;
  \<open>row['end_time']\<close> is read without a test on the column. In \<open>llm_end_event\<close> the
  defaults \<open>0\<close> of \<open>latency\<close> and \<open>False\<close> of \<open>is_cached\<close> are both the integer 0.
\<close>

definition llm_events :: "string set \<Rightarrow> cc_row \<Rightarrow> py_error + event list" where
  "llm_events cols row =
     (if ''start_time'' \<in> cols \<and> ''session_id'' \<in> cols \<and> ''client_id'' \<in> cols \<and>
         ''invocation_id'' \<in> cols then
        (case dict_get (cc_request_dict row) ''model'' (JStr ''Unknown'') of
           Inl e \<Rightarrow> Inl e
         | Inr model \<Rightarrow>
             if ''end_time'' \<in> cols
             then Inr [llm_start_event cols row model, llm_end_event cols row]
             else Inl KeyError)
      else Inr [])"

text \<open>
  A function call takes its session from the identity map. \<open>if source_id\<close> and
  \<open>if session_id\<close> are truth tests, so an identifier \<open>0\<close> or \<open>''\<close> counts as missing.
\<close>

definition function_call_events :: "id_map \<Rightarrow> string set \<Rightarrow> function_call_row \<Rightarrow> event list" where
  "function_call_events ids cols row =
     (let source = row_get cols ''source_id'' (fc_source_id row) None;
          session = (case source of
                       None \<Rightarrow> None
                     | Some k \<Rightarrow> if truthy k then ids k else None)
      in case session of
           None \<Rightarrow> []
         | Some s \<Rightarrow>
             if truthy s \<and> ''timestamp'' \<in> cols then
               [\<lparr>timestamp = fc_timestamp row,
                 session_id = Some s,
                 source_name = row_get cols ''source_name'' (fc_source_name row) (Some (IdStr ''Unknown'')),
                 source_id = source,
                 invocation_id = None,
                 details = FunctionCall
                   (row_get cols ''function_name'' (fc_function_name row) (Some (IdStr ''Unknown'')))
                   (fc_args_dict row) (fc_returns_dict row)\<rparr>]
             else [])"

definition client_events :: "string set \<Rightarrow> client_row \<Rightarrow> event list" where
  "client_events cols row =
     (if ''timestamp'' \<in> cols \<and> ''session_id'' \<in> cols \<and> ''client_id'' \<in> cols then
        [\<lparr>timestamp = cl_timestamp row,
          session_id = cl_session_id row,
          source_name = Some (IdStr ''System''),
          source_id = cl_client_id row,
          invocation_id = None,
          details = ClientConfig (cl_config_dict row)
                      (row_get cols ''wrapper_id'' (cl_wrapper_id row) None)\<rparr>]
      else [])"

definition wrapper_events :: "string set \<Rightarrow> wrapper_row \<Rightarrow> event list" where
  "wrapper_events cols row =
     (if ''timestamp'' \<in> cols \<and> ''session_id'' \<in> cols \<and> ''wrapper_id'' \<in> cols then
        [\<lparr>timestamp = wr_timestamp row,
          session_id = wr_session_id row,
          source_name = Some (IdStr ''System''),
          source_id = wr_wrapper_id row,
          invocation_id = None,
          details = WrapperConfig (wr_config_dict row)\<rparr>]
      else [])"

text \<open>
  \<open>unified_events\<close> after the six loops: the events in the order the loops append them.
  Only the loop over the chat completions can raise.
\<close>

definition unified_events :: "tables \<Rightarrow> py_error + event list" where
  "unified_events t =
     (case apply_rows (llm_events (columns (chat_completions t))) (rows (chat_completions t)) of
        Inl e \<Rightarrow> Inl e
      | Inr llm \<Rightarrow>
          Inr (concat (map (agent_events (columns (agents t))) (rows (agents t))) @
               concat (map (event_events (columns (events t))) (rows (events t))) @
               concat llm @
               concat (map (function_call_events (id_to_session t) (columns (function_calls t)))
                         (rows (function_calls t))) @
               concat (map (client_events (columns (oai_clients t))) (rows (oai_clients t))) @
               concat (map (wrapper_events (columns (oai_wrappers t))) (rows (oai_wrappers t)))))"

subsection \<open>Grouping by session\<close>

text \<open>
  \<open>session_data[event['session_id']].append(event)\<close> on a \<open>defaultdict(list)\<close>, for the
  events whose session id is not null.
\<close>

definition append_event :: "event \<Rightarrow> (ident \<rightharpoonup> event list) \<Rightarrow> (ident \<rightharpoonup> event list)" where
  "append_event e m =
     (case session_id e of
        None \<Rightarrow> m
      | Some s \<Rightarrow> m(s \<mapsto> (case m s of None \<Rightarrow> [] | Some es \<Rightarrow> es) @ [e]))"

text \<open>
  \<open>sorted\<close> is stable, as \<open>sort_key\<close> is; the key is the timestamp, not null after the
  filter.
\<close>

definition group_events :: "event list \<Rightarrow> (ident \<rightharpoonup> event list)" where
  "group_events es =
     (let valid_events = filter (\<lambda>e. timestamp e \<noteq> None) es
      in fold append_event (sort_key timestamp valid_events) Map.empty)"

definition build_unified_session_view :: "tables \<Rightarrow> py_error + (ident \<rightharpoonup> event list)" where
  "build_unified_session_view t =
     (case unified_events t of
        Inl e \<Rightarrow> Inl e
      | Inr es \<Rightarrow> Inr (group_events es))"

text \<open>
  What the grouping leaves under a session id, written without the dictionary: the events
  of that session among the sorted valid events. It is used to state and prove the
  properties of \<open>group_events\<close>.
\<close>

definition timeline_of :: "event list \<Rightarrow> ident \<Rightarrow> event list" where
  "timeline_of es s =
     filter (\<lambda>e. session_id e = Some s)
       (sort_key timestamp (filter (\<lambda>e. timestamp e \<noteq> None) es))"

text \<open>The timeline of one session, \<open>session_data.get(s)\<close> on the returned dictionary.\<close>

definition session_timeline :: "tables \<Rightarrow> ident \<Rightarrow> py_error + event list option" where
  "session_timeline t s =
     (case build_unified_session_view t of
        Inl e \<Rightarrow> Inl e
      | Inr m \<Rightarrow> Inr (m s))"

section \<open>calculate_session_metrics\<close>

datatype status = Completed | Failed

record session_metrics =
  metrics_session_id :: ident
  start_time :: time
  end_time :: time
  duration :: "real option"
  status :: status
  num_messages :: nat
  num_llm_calls :: nat
  num_function_calls :: nat
  metrics_agents :: "cell set"
  metrics_functions :: "cell set"
  metrics_models :: "json set"
  total_cost :: npfloat
  total_tokens :: int

text \<open>The variables of the loop over the session's events.\<close>

record scan =
  event_counts :: "event_type \<Rightarrow> nat"
  agent_names :: "cell set"
  function_names :: "cell set"
  llm_models :: "json set"
  scan_status :: status

definition scan_start :: scan where
  "scan_start = \<lparr>event_counts = (\<lambda>_. 0), agent_names = {}, function_names = {},
                 llm_models = {}, scan_status = Completed\<rparr>"

text \<open>A list or a dictionary cannot be put in a set: \<open>llm_models.add\<close> raises on it.\<close>

fun hashable :: "json \<Rightarrow> bool" where
  "hashable (JArr xs) = False"
| "hashable (JObj kvs) = False"
| "hashable _ = True"

text \<open>
  One turn of the loop. \<open>py_str\<close> is Python's \<open>str\<close> on the parsed payload, taken as a
  parameter (the text of a float is outside the model); \<open>'exitcode' in s\<close> is the
  test for a contiguous sublist.
\<close>

definition scan_event :: "(json \<Rightarrow> string) \<Rightarrow> event \<Rightarrow> scan \<Rightarrow> py_error + scan" where
  "scan_event py_str e s =
     (let s1 = s\<lparr>event_counts := (event_counts s)(etype e := event_counts s (etype e) + 1),
                agent_names := insert (source_name e) (agent_names s)\<rparr>
      in case details e of
           FunctionCall name a r \<Rightarrow> Inr (s1\<lparr>function_names := insert name (function_names s1)\<rparr>)
         | LlmCallStart req model w \<Rightarrow>
             if hashable model then Inr (s1\<lparr>llm_models := insert model (llm_models s1)\<rparr>)
             else Inl TypeError
         | EventReceivedMessage name d \<Rightarrow>
             Inr (if sublist ''exitcode'' (py_str d) then s1\<lparr>scan_status := Failed\<rparr> else s1)
         | _ \<Rightarrow> Inr s1)"

fun scan_events :: "(json \<Rightarrow> string) \<Rightarrow> event list \<Rightarrow> scan \<Rightarrow> py_error + scan" where
  "scan_events py_str [] s = Inr s"
| "scan_events py_str (e # es) s =
     (case scan_event py_str e s of
        Inl err \<Rightarrow> Inl err
      | Inr s' \<Rightarrow> scan_events py_str es s')"

text \<open>
  \<open>min\<close> and \<open>max\<close> keep the first element unless a later one compares smaller (larger);
  a comparison with \<open>NaT\<close> is false.
\<close>

definition time_less :: "time \<Rightarrow> time \<Rightarrow> bool" where
  "time_less a b = (case (a, b) of (Some x, Some y) \<Rightarrow> x < y | _ \<Rightarrow> False)"

definition py_min :: "time \<Rightarrow> time list \<Rightarrow> time" where
  "py_min x xs = fold (\<lambda>y best. if time_less y best then y else best) xs x"

definition py_max :: "time \<Rightarrow> time list \<Rightarrow> time" where
  "py_max x xs = fold (\<lambda>y best. if time_less best y then y else best) xs x"

definition total_seconds :: "time \<Rightarrow> time \<Rightarrow> real option" where
  "total_seconds a b =
     (case (a, b) of
        (Some x, Some y) \<Rightarrow> Some (real_of_int (x - y) / 1000000000)
      | _ \<Rightarrow> None)"

text \<open>
  The rows selected by \<open>chat_completions_df['session_id'] == session_id\<close> and the two sums
  over them.

  \<open>session_cc['cost'].sum()\<close> adds float64 cells and skips the nulls. In which order pandas
  adds them, and so how the result is rounded, is not written in the source: the sum is a
  parameter, \<open>float_sum\<close>, applied to the cells in table order. The sum of no cell is 0.

  \<open>session_cc['total_tokens'].sum()\<close> adds the cells of an int64 column, which is what the
  enrichment makes of counts that fit in 64 bits (\<open>fits_int64\<close>); the sum is taken in 64
  bits and wraps around (\<open>int64\<close>).
\<close>

definition session_cc :: "ident \<Rightarrow> cc_row list \<Rightarrow> cc_row list" where
  "session_cc sid rs = filter (\<lambda>r. cc_session_id r = Some sid) rs"

definition cost_sum :: "(real option list \<Rightarrow> npfloat) \<Rightarrow> cc_row list \<Rightarrow> npfloat" where
  "cost_sum float_sum rs = (if rs = [] then Fin 0 else float_sum (map cc_cost rs))"

definition fits_int64 :: "int \<Rightarrow> bool" where
  "fits_int64 n = (- (2 ^ 63) \<le> n \<and> n < 2 ^ 63)"

definition int64 :: "int \<Rightarrow> int" where
  "int64 n = (n + 2 ^ 63) mod 2 ^ 64 - 2 ^ 63"

definition token_sum :: "cc_row list \<Rightarrow> int" where
  "token_sum rs = int64 (sum_list (map cc_total_tokens rs))"

text \<open>
  The result is \<open>Inr None\<close> for the empty dictionary returned on an empty timeline.
  Indexing the data frame by a column it does not have raises \<open>KeyError\<close>.
\<close>

definition calculate_session_metrics ::
  "(json \<Rightarrow> string) \<Rightarrow> (real option list \<Rightarrow> npfloat) \<Rightarrow> ident \<Rightarrow> event list \<Rightarrow>
   cc_row table \<Rightarrow> py_error + session_metrics option" where
  "calculate_session_metrics py_str float_sum sid session_events chat_completions_df =
     (case session_events of
        [] \<Rightarrow> Inr None
      | e # es \<Rightarrow>
          (case scan_events py_str session_events scan_start of
             Inl err \<Rightarrow> Inl err
           | Inr s \<Rightarrow>
               if ''session_id'' \<in> columns chat_completions_df \<and>
                  ''cost'' \<in> columns chat_completions_df \<and>
                  ''total_tokens'' \<in> columns chat_completions_df
               then
                 Inr (Some
                   \<lparr>metrics_session_id = sid,
                    start_time = py_min (timestamp e) (map timestamp es),
                    end_time = py_max (timestamp e) (map timestamp es),
                    duration = total_seconds (py_max (timestamp e) (map timestamp es))
                                 (py_min (timestamp e) (map timestamp es)),
                    status = scan_status s,
                    num_messages = event_counts s event_received_message,
                    num_llm_calls = event_counts s llm_call_start,
                    num_function_calls = event_counts s function_call,
                    metrics_agents = agent_names s,
                    metrics_functions = function_names s,
                    metrics_models = llm_models s,
                    total_cost = cost_sum float_sum (session_cc sid (rows chat_completions_df)),
                    total_tokens = token_sum (session_cc sid (rows chat_completions_df))\<rparr>)
               else Inl KeyError))"

text \<open>
  The test of the status rule on one event: a received message whose payload, rendered as
  text, contains \<open>exitcode\<close>. It is used to state the properties of the status.
\<close>

definition reports_exit :: "(json \<Rightarrow> string) \<Rightarrow> event \<Rightarrow> bool" where
  "reports_exit py_str e =
     (\<exists>n d. details e = EventReceivedMessage n d \<and> sublist ''exitcode'' (py_str d))"

text \<open>
  \<open>main\<close> computes the metrics of every session of the dictionary from its timeline and
  the loaded chat completions; \<open>session_metrics_of\<close> is that call for one session id,
  \<open>Inr None\<close> when the dictionary has no such session.
\<close>

definition session_metrics_of ::
  "(json \<Rightarrow> string) \<Rightarrow> (real option list \<Rightarrow> npfloat) \<Rightarrow> tables \<Rightarrow> ident \<Rightarrow>
   py_error + session_metrics option" where
  "session_metrics_of py_str float_sum t s =
     (case build_unified_session_view t of
        Inl e \<Rightarrow> Inl e
      | Inr m \<Rightarrow>
          (case m s of
             None \<Rightarrow> Inr None
           | Some session_events \<Rightarrow>
               calculate_session_metrics py_str float_sum s session_events
                 (chat_completions t)))"

section \<open>An example database\<close>

text \<open>
  One session \<open>S1\<close>: a wrapper, a client and an agent are configured, the agent calls the
  model once, receives a message that reports a failed execution, and calls a function.
  A second chat completion of the session has no timestamps, and a second function call
  comes from a source that no configuration table names.
\<close>

definition agents_columns :: "string set" where
  "agents_columns = {''session_id'', ''wrapper_id'', ''agent_id'', ''timestamp'', ''init_args'',
     ''agent_class_name'', ''source_name'', ''config_dict''}"

definition events_columns :: "string set" where
  "events_columns = {''session_id'', ''source_id'', ''timestamp'', ''event_name'', ''json_state'',
     ''source_name'', ''state_dict''}"

definition cc_columns :: "string set" where
  "cc_columns = {''session_id'', ''client_id'', ''invocation_id'', ''start_time'', ''end_time'',
     ''request'', ''response'', ''cost'', ''latency'', ''is_cached'', ''wrapper_id'',
     ''source_name'', ''request_dict'', ''response_dict''}"

definition enriched_columns :: "string set" where
  "enriched_columns = cc_columns \<union>
     {''total_tokens'', ''prompt_tokens'', ''completion_tokens'', ''cost_per_token'',
      ''completion_ratio''}"

definition fc_columns :: "string set" where
  "fc_columns = {''source_id'', ''timestamp'', ''function_name'', ''args'', ''returns'',
     ''source_name'', ''args_dict'', ''returns_dict''}"

definition clients_columns :: "string set" where
  "clients_columns = {''session_id'', ''client_id'', ''wrapper_id'', ''timestamp'', ''init_args'',
     ''config_dict''}"

definition wrappers_columns :: "string set" where
  "wrappers_columns = {''session_id'', ''wrapper_id'', ''timestamp'', ''init_args'',
     ''config_dict''}"

definition agent_ceo :: agent_row where
  "agent_ceo = \<lparr>ag_timestamp = Some 10, ag_session_id = Some (IdStr ''S1''),
     ag_wrapper_id = Some (IdStr ''W1''), ag_agent_id = Some (IdStr ''A1''),
     ag_source_name = Some (IdStr ''CEO''),
     ag_agent_class_name = Some (IdStr ''ConversableAgent''), ag_config_dict = JObj []\<rparr>"

definition message_failed :: event_row where
  "message_failed = \<lparr>ev_timestamp = Some 25, ev_session_id = Some (IdStr ''S1''),
     ev_source_id = Some (IdStr ''A1''), ev_source_name = Some (IdStr ''CEO''),
     ev_event_name = Some (IdStr ''received_message''),
     ev_state_dict = JObj [(''message'', JStr ''exitcode: 1 (execution failed)'')]\<rparr>"

definition cc_blank :: cc_row where
  "cc_blank = \<lparr>cc_start_time = None, cc_end_time = None, cc_session_id = None,
     cc_client_id = None, cc_invocation_id = None, cc_wrapper_id = None,
     cc_source_name = None, cc_request_dict = JObj [], cc_response_dict = JObj [],
     cc_cost = None, cc_latency = None, cc_is_cached = None, cc_total_tokens = 0,
     cc_prompt_tokens = 0, cc_completion_tokens = 0, cc_cost_per_token = NaN,
     cc_completion_ratio = NaN\<rparr>"

definition cc_call :: cc_row where
  "cc_call = cc_blank\<lparr>cc_start_time := Some 20, cc_end_time := Some 30,
     cc_session_id := Some (IdStr ''S1''), cc_client_id := Some (IdStr ''C1''),
     cc_invocation_id := Some (IdStr ''I1''), cc_wrapper_id := Some (IdStr ''W1''),
     cc_source_name := Some (IdStr ''CEO''),
     cc_request_dict := JObj [(''model'', JStr ''gpt-4'')],
     cc_response_dict := JObj [(''usage'', JObj [(''total_tokens'', JInt 100),
        (''prompt_tokens'', JInt 60), (''completion_tokens'', JInt 40)])],
     cc_cost := Some (2 / 100)\<rparr>"

definition cc_untimed :: cc_row where
  "cc_untimed = cc_blank\<lparr>cc_session_id := Some (IdStr ''S1''),
     cc_client_id := Some (IdStr ''C1''), cc_invocation_id := Some (IdStr ''I2''),
     cc_cost := Some (5 / 100)\<rparr>"

text \<open>A chat completion whose response reports \<open>total_tokens\<close> as the text \<open>abc\<close>.\<close>

definition cc_garbled :: cc_row where
  "cc_garbled = cc_untimed\<lparr>cc_invocation_id := Some (IdStr ''I3''),
     cc_response_dict := JObj [(''usage'', JObj [(''total_tokens'', JStr ''abc'')])]\<rparr>"

text \<open>
  Chat completions whose counts need a coercion: a text with blanks and an underscore, a
  float and a Boolean; a null; and a count left out.
\<close>

definition cc_spelled :: cc_row where
  "cc_spelled = cc_untimed\<lparr>cc_invocation_id := Some (IdStr ''I4''),
     cc_response_dict := JObj [(''usage'', JObj [(''total_tokens'', JStr '' 1_200 ''),
        (''prompt_tokens'', JFloat (Fin (7009 / 10))), (''completion_tokens'', JBool True)])]\<rparr>"

definition cc_nulled :: cc_row where
  "cc_nulled = cc_untimed\<lparr>cc_invocation_id := Some (IdStr ''I5''),
     cc_response_dict := JObj [(''usage'', JObj [(''total_tokens'', JInt 7),
        (''prompt_tokens'', JNull)])]\<rparr>"

definition cc_partial :: cc_row where
  "cc_partial = cc_untimed\<lparr>cc_invocation_id := Some (IdStr ''I6''),
     cc_response_dict := JObj [(''usage'', JObj [(''prompt_tokens'', JStr ''12'')])]\<rparr>"

text \<open>A chat completion without timestamps of another session, \<open>S2\<close>.\<close>

definition cc_other :: cc_row where
  "cc_other = cc_untimed\<lparr>cc_session_id := Some (IdStr ''S2''),
     cc_invocation_id := Some (IdStr ''I7''), cc_cost := Some (9 / 100),
     cc_response_dict := JObj [(''usage'', JObj [(''total_tokens'', JInt 11)])]\<rparr>"

definition cc_other_enriched :: cc_row where
  "cc_other_enriched = cc_other\<lparr>cc_total_tokens := 11, cc_cost_per_token := Fin (9 / 1100),
     cc_completion_ratio := Fin 0\<rparr>"

definition cc_call_enriched :: cc_row where
  "cc_call_enriched = cc_call\<lparr>cc_total_tokens := 100, cc_prompt_tokens := 60,
     cc_completion_tokens := 40, cc_cost_per_token := Fin (2 / 10000),
     cc_completion_ratio := Fin (4 / 10)\<rparr>"

definition cc_untimed_enriched :: cc_row where
  "cc_untimed_enriched = cc_untimed\<lparr>cc_cost_per_token := Fin 0, cc_completion_ratio := Fin 0\<rparr>"

definition call_lookup :: function_call_row where
  "call_lookup = \<lparr>fc_timestamp = Some 40, fc_session_id = None,
     fc_source_id = Some (IdStr ''W1''), fc_source_name = Some (IdStr ''CEO''),
     fc_function_name = Some (IdStr ''lookup''), fc_args_dict = JObj [],
     fc_returns_dict = JObj []\<rparr>"

definition call_stray :: function_call_row where
  "call_stray = call_lookup\<lparr>fc_timestamp := Some 41, fc_source_id := Some (IdStr ''W9'')\<rparr>"

definition client_c1 :: client_row where
  "client_c1 = \<lparr>cl_timestamp = Some 5, cl_session_id = Some (IdStr ''S1''),
     cl_client_id = Some (IdStr ''C1''), cl_wrapper_id = Some (IdStr ''W1''),
     cl_config_dict = JObj []\<rparr>"

definition wrapper_w1 :: wrapper_row where
  "wrapper_w1 = \<lparr>wr_timestamp = Some 1, wr_session_id = Some (IdStr ''S1''),
     wr_wrapper_id = Some (IdStr ''W1''), wr_config_dict = JObj []\<rparr>"

definition demo_raw :: tables where
  "demo_raw =
     \<lparr>agents = \<lparr>columns = agents_columns, rows = [agent_ceo]\<rparr>,
      chat_completions = \<lparr>columns = cc_columns, rows = [cc_call, cc_untimed]\<rparr>,
      events = \<lparr>columns = events_columns, rows = [message_failed]\<rparr>,
      function_calls = \<lparr>columns = fc_columns, rows = [call_lookup, call_stray]\<rparr>,
      oai_clients = \<lparr>columns = clients_columns, rows = [client_c1]\<rparr>,
      oai_wrappers = \<lparr>columns = wrappers_columns, rows = [wrapper_w1]\<rparr>\<rparr>"

definition demo :: tables where
  "demo = demo_raw\<lparr>chat_completions :=
            \<lparr>columns = enriched_columns, rows = [cc_call_enriched, cc_untimed_enriched]\<rparr>\<rparr>"

text \<open>The example with the chat completion of \<open>S2\<close> between its own two.\<close>

definition demo_shared_raw :: tables where
  "demo_shared_raw = demo_raw\<lparr>chat_completions :=
     \<lparr>columns = cc_columns, rows = [cc_call, cc_other, cc_untimed]\<rparr>\<rparr>"

definition demo_shared :: tables where
  "demo_shared = demo\<lparr>chat_completions :=
     \<lparr>columns = enriched_columns,
      rows = [cc_call_enriched, cc_other_enriched, cc_untimed_enriched]\<rparr>\<rparr>"

text \<open>
  The column \<open>source_name\<close> of the example holds the text \<open>CEO\<close>, in upper case and
  stripped, and nulls: on it the string methods of pandas return the cells as they are.
\<close>

definition names_kept :: "cell list \<Rightarrow> cell list option" where
  "names_kept names = Some names"

text \<open>The events of the example, and the timeline of \<open>S1\<close> in chronological order.\<close>

definition ev_wrapper :: event where
  "ev_wrapper = \<lparr>timestamp = Some 1, session_id = Some (IdStr ''S1''),
     source_name = Some (IdStr ''System''), source_id = Some (IdStr ''W1''),
     invocation_id = None, details = WrapperConfig (JObj [])\<rparr>"

definition ev_client :: event where
  "ev_client = \<lparr>timestamp = Some 5, session_id = Some (IdStr ''S1''),
     source_name = Some (IdStr ''System''), source_id = Some (IdStr ''C1''),
     invocation_id = None, details = ClientConfig (JObj []) (Some (IdStr ''W1''))\<rparr>"

definition ev_agent :: event where
  "ev_agent = \<lparr>timestamp = Some 10, session_id = Some (IdStr ''S1''),
     source_name = Some (IdStr ''CEO''), source_id = Some (IdStr ''W1''),
     invocation_id = None,
     details = AgentConfig (JObj []) (Some (IdStr ''ConversableAgent'')) (Some (IdStr ''A1''))\<rparr>"

definition ev_message :: event where
  "ev_message = \<lparr>timestamp = Some 25, session_id = Some (IdStr ''S1''),
     source_name = Some (IdStr ''CEO''), source_id = Some (IdStr ''A1''),
     invocation_id = None,
     details = EventReceivedMessage (Some (IdStr ''received_message''))
                 (JObj [(''message'', JStr ''exitcode: 1 (execution failed)'')])\<rparr>"

definition ev_lookup :: event where
  "ev_lookup = \<lparr>timestamp = Some 40, session_id = Some (IdStr ''S1''),
     source_name = Some (IdStr ''CEO''), source_id = Some (IdStr ''W1''),
     invocation_id = None,
     details = FunctionCall (Some (IdStr ''lookup'')) (JObj []) (JObj [])\<rparr>"

definition ev_start :: event where
  "ev_start = \<lparr>timestamp = Some 20, session_id = Some (IdStr ''S1''),
     source_name = Some (IdStr ''CEO''), source_id = Some (IdStr ''C1''),
     invocation_id = Some (Some (IdStr ''I1'')),
     details = LlmCallStart (JObj [(''model'', JStr ''gpt-4'')]) (JStr ''gpt-4'') (Some (IdStr ''W1''))\<rparr>"

definition ev_end :: event where
  "ev_end = \<lparr>timestamp = Some 30, session_id = Some (IdStr ''S1''),
     source_name = Some (IdStr ''CEO''), source_id = Some (IdStr ''C1''),
     invocation_id = Some (Some (IdStr ''I1'')),
     details = LlmCallEnd (JObj [(''usage'', JObj [(''total_tokens'', JInt 100),
        (''prompt_tokens'', JInt 60), (''completion_tokens'', JInt 40)])])
        (Some (2 / 100)) None None (Some (IdStr ''W1''))\<rparr>"

definition demo_events :: "event list" where
  "demo_events = [ev_agent, ev_message, ev_start, ev_end,
     llm_start_event enriched_columns cc_untimed_enriched (JStr ''Unknown''),
     llm_end_event enriched_columns cc_untimed_enriched,
     ev_lookup, ev_client, ev_wrapper]"

definition demo_timeline :: "event list" where
  "demo_timeline = [ev_wrapper, ev_client, ev_agent, ev_start, ev_message, ev_end, ev_lookup]"

definition demo_shared_events :: "event list" where
  "demo_shared_events = [ev_agent, ev_message, ev_start, ev_end,
     llm_start_event enriched_columns cc_other_enriched (JStr ''Unknown''),
     llm_end_event enriched_columns cc_other_enriched,
     llm_start_event enriched_columns cc_untimed_enriched (JStr ''Unknown''),
     llm_end_event enriched_columns cc_untimed_enriched,
     ev_lookup, ev_client, ev_wrapper]"

text \<open>
  The example with its timed chat completion changed: left without an end, ended
  before it started, and left without a start.
\<close>

definition cc_unfinished :: cc_row where
  "cc_unfinished = cc_call_enriched\<lparr>cc_end_time := None\<rparr>"

definition cc_backwards :: cc_row where
  "cc_backwards = cc_call_enriched\<lparr>cc_end_time := Some 15\<rparr>"

definition ev_end_early :: event where
  "ev_end_early = ev_end\<lparr>timestamp := Some 15\<rparr>"

definition cc_unstarted :: cc_row where
  "cc_unstarted = cc_call_enriched\<lparr>cc_start_time := None\<rparr>"

definition demo_unstarted :: tables where
  "demo_unstarted =
     demo\<lparr>chat_completions := \<lparr>columns = enriched_columns, rows = [cc_unstarted]\<rparr>\<rparr>"

definition demo_unfinished :: tables where
  "demo_unfinished =
     demo\<lparr>chat_completions := \<lparr>columns = enriched_columns, rows = [cc_unfinished]\<rparr>\<rparr>"

definition demo_backwards :: tables where
  "demo_backwards =
     demo\<lparr>chat_completions := \<lparr>columns = enriched_columns, rows = [cc_backwards]\<rparr>\<rparr>"

text \<open>The example as it is read when its chat completions table has no rows.\<close>

definition demo_silent :: tables where
  "demo_silent = demo\<lparr>chat_completions := \<lparr>columns = cc_columns, rows = []\<rparr>\<rparr>"

text \<open>The example with its wrapper registered for another session, \<open>S2\<close>.\<close>

definition wrapper_rebound :: wrapper_row where
  "wrapper_rebound = wrapper_w1\<lparr>wr_session_id := Some (IdStr ''S2'')\<rparr>"

definition demo_rebound :: tables where
  "demo_rebound = demo\<lparr>oai_wrappers := \<lparr>columns = wrappers_columns, rows = [wrapper_rebound]\<rparr>\<rparr>"

text \<open>
  A rendering of payloads for the examples: Python's \<open>str\<close> on values of ASCII text
  without floats (a float is shown as \<open>?\<close>).
\<close>

fun show_nat :: "nat \<Rightarrow> string" where
  "show_nat n =
     (if n < 10 then [char_of (48 + n)]
      else show_nat (n div 10) @ [char_of (48 + n mod 10)])"

definition show_int :: "int \<Rightarrow> string" where
  "show_int i = (if i < 0 then CHR ''-'' # show_nat (nat (- i)) else show_nat (nat i))"

definition escape_char :: "char \<Rightarrow> char \<Rightarrow> string" where
  "escape_char q c =
     (if c = CHR 0x5C then [CHR 0x5C, CHR 0x5C]
      else if c = q then [CHR 0x5C, q]
      else if c = CHR 0x0A then [CHR 0x5C, CHR ''n'']
      else if c = CHR 0x0D then [CHR 0x5C, CHR ''r'']
      else if c = CHR 0x09 then [CHR 0x5C, CHR ''t'']
      else [c])"

definition repr_str :: "string \<Rightarrow> string" where
  "repr_str s =
     (let q = (if CHR 0x27 \<in> set s \<and> CHR 0x22 \<notin> set s then CHR 0x22 else CHR 0x27)
      in q # concat (map (escape_char q) s) @ [q])"

fun join :: "string \<Rightarrow> string list \<Rightarrow> string" where
  "join sep [] = []"
| "join sep [x] = x"
| "join sep (x # y # ys) = x @ sep @ join sep (y # ys)"

fun repr :: "json \<Rightarrow> string" where
  "repr JNull = ''None''"
| "repr (JBool b) = (if b then ''True'' else ''False'')"
| "repr (JInt n) = show_int n"
| "repr (JFloat f) = ''?''"
| "repr (JStr s) = repr_str s"
| "repr (JArr xs) = ''['' @ join '', '' (map repr xs) @ '']''"
| "repr (JObj kvs) =
     ''{'' @ join '', '' (map (\<lambda>(k, v). repr_str k @ '': '' @ repr v) kvs) @ ''}''"

definition str_plain :: "json \<Rightarrow> string" where
  "str_plain j = (case j of JStr s \<Rightarrow> s | _ \<Rightarrow> repr j)"

section \<open>Properties of the enrichment\<close>

lemma apply_rows_Inr:
  "apply_rows f xs = Inr ys \<Longrightarrow>
   length ys = length xs \<and> (\<forall>i < length xs. f (xs ! i) = Inr (ys ! i))"
proof (induction xs arbitrary: ys)
  case Nil
  then show ?case by simp
next
  case (Cons x xs)
  then obtain y ys' where fx: "f x = Inr y" and rest: "apply_rows f xs = Inr ys'"
    and ys: "ys = y # ys'"
    by (auto split: sum.splits)
  from Cons.IH[OF rest] have ih: "length ys' = length xs"
    "\<forall>i<length xs. f (xs ! i) = Inr (ys' ! i)"
    by simp_all
  show ?case
  proof (intro conjI allI impI)
    show "length ys = length (x # xs)" using ih ys by simp
  next
    fix i assume "i < length (x # xs)"
    then show "f ((x # xs) ! i) = Inr (ys ! i)"
      using fx ih ys by (cases i) simp_all
  qed
qed


lemma apply_rows_fails:
  "x \<in> set xs \<Longrightarrow> f x = Inl e \<Longrightarrow> \<exists>e'. apply_rows f xs = Inl e'"
  by (induction xs) (auto split: sum.splits)







lemma set_source_name_Inr:
  assumes "set_source_name f cc = Inr named"
  shows "length named = length (rows cc) \<and>
         (\<forall>i < length (rows cc). \<exists>v. named ! i = (rows cc ! i)\<lparr>cc_source_name := v\<rparr>)"
proof (cases "''source_name'' \<in> columns cc")
  case False
  with assms have named: "named = rows cc" by (simp add: set_source_name_def)
  have "\<forall>i < length (rows cc).
          named ! i = (rows cc ! i)\<lparr>cc_source_name := cc_source_name (rows cc ! i)\<rparr>"
    unfolding named by simp
  then show ?thesis using named by blast
next
  case True
  with assms obtain names where
    named: "named = map (\<lambda>(r, v). r\<lparr>cc_source_name := v\<rparr>)
                      (zip (rows cc) (names @ replicate (length (rows cc)) None))"
    by (auto simp: set_source_name_def split: option.splits)
  have len: "length named = length (rows cc)" unfolding named by simp
  have "\<forall>i < length (rows cc).
          named ! i =
            (rows cc ! i)\<lparr>cc_source_name := (names @ replicate (length (rows cc)) None) ! i\<rparr>"
    unfolding named by simp
  then show ?thesis using len by blast
qed

lemma set_source_name_fields:
  assumes "set_source_name f cc = Inr named" and "i < length (rows cc)"
  shows "cc_response_dict (named ! i) = cc_response_dict (rows cc ! i)"
    and "cc_cost (named ! i) = cc_cost (rows cc ! i)"
proof -
  from set_source_name_Inr[OF assms(1)] assms(2) obtain v where
    "named ! i = (rows cc ! i)\<lparr>cc_source_name := v\<rparr>"
    by blast
  then show "cc_response_dict (named ! i) = cc_response_dict (rows cc ! i)"
    and "cc_cost (named ! i) = cc_cost (rows cc ! i)"
    by simp_all
qed

lemma enrich_nonempty:
  "rows cc \<noteq> [] \<Longrightarrow> enrich f cc =
     (if ''end_time'' \<notin> columns cc \<or> ''start_time'' \<notin> columns cc then Inl KeyError
      else case set_source_name f cc of
          Inl e \<Rightarrow> Inl e
        | Inr named \<Rightarrow>
            (case apply_rows set_tokens named of
               Inl e \<Rightarrow> Inl e
             | Inr rs \<Rightarrow>
                 if ''cost'' \<notin> columns cc then Inl KeyError
                 else Inr \<lparr>columns = columns cc \<union>
                              {''total_tokens'', ''prompt_tokens'', ''completion_tokens'',
                               ''cost_per_token'', ''completion_ratio''},
                           rows = map set_ratios rs\<rparr>))"
  unfolding enrich_def by (rule if_not_P)


lemma enrich_rows:
  assumes "enrich f cc = Inr cc'" and "rows cc \<noteq> []"
  shows "\<exists>named rs. set_source_name f cc = Inr named \<and>
              apply_rows set_tokens named = Inr rs \<and> rows cc' = map set_ratios rs"
  using assms by (auto simp: enrich_def split: if_splits sum.splits)


lemma extract_tokens_cc_call: "extract_tokens (cc_response_dict cc_call) = Inr (100, 60, 40)"
  by (simp add: cc_call_def cc_blank_def extract_tokens_def usage_int_def)

lemma extract_tokens_cc_untimed: "extract_tokens (cc_response_dict cc_untimed) = Inr (0, 0, 0)"
  by (simp add: cc_untimed_def cc_blank_def extract_tokens_def usage_int_def)

lemma extract_tokens_cc_other: "extract_tokens (cc_response_dict cc_other) = Inr (11, 0, 0)"
  by (simp add: cc_other_def cc_untimed_def cc_blank_def extract_tokens_def usage_int_def)

lemma names_kept_rows:
  "''source_name'' \<in> columns cc \<Longrightarrow> set_source_name names_kept cc = Inr (rows cc)"
proof -
  assume c: "''source_name'' \<in> columns cc"
  have "map (\<lambda>(r, v). r\<lparr>cc_source_name := v\<rparr>)
          (zip rs (map cc_source_name rs @ pad)) = rs" for rs :: "cc_row list" and pad
    by (induction rs) simp_all
  with c show ?thesis by (simp add: set_source_name_def names_kept_def)
qed

lemma example_ratios:
  "set_ratios (cc_call\<lparr>cc_total_tokens := 100, cc_prompt_tokens := 60,
                 cc_completion_tokens := 40\<rparr>) = cc_call_enriched"
  "set_ratios (cc_untimed\<lparr>cc_total_tokens := 0, cc_prompt_tokens := 0,
                 cc_completion_tokens := 0\<rparr>) = cc_untimed_enriched"
  "set_ratios (cc_other\<lparr>cc_total_tokens := 11, cc_prompt_tokens := 0,
                 cc_completion_tokens := 0\<rparr>) = cc_other_enriched"
  by (simp_all add: set_ratios_def np_where_def series_div_def cc_call_enriched_def
        cc_untimed_enriched_def cc_other_enriched_def cc_other_def cc_call_def cc_untimed_def
        cc_blank_def)

lemma enrich_example:
  assumes tokens: "apply_rows set_tokens rs = Inr ts" and rs: "rs \<noteq> []"
  shows "enrich names_kept \<lparr>columns = cc_columns, rows = rs\<rparr> =
           Inr \<lparr>columns = enriched_columns, rows = map set_ratios ts\<rparr>"
proof -
  let ?cc = "\<lparr>columns = cc_columns, rows = rs\<rparr>"
  have ne: "rows ?cc \<noteq> []" using rs by simp
  have named: "set_source_name names_kept ?cc = Inr rs"
    using names_kept_rows[of ?cc] by (simp add: cc_columns_def)
  have cols: "''end_time'' \<in> columns ?cc" "''start_time'' \<in> columns ?cc"
    "''cost'' \<in> columns ?cc"
    by (simp_all add: cc_columns_def)
  show ?thesis
    unfolding enrich_nonempty[OF ne] named
    using cols tokens by (simp add: enriched_columns_def)
qed


lemma load_demo_shared_raw: "load_database_body names_kept demo_shared_raw = Inr demo_shared"
proof -
  have tokens: "apply_rows set_tokens [cc_call, cc_other, cc_untimed] =
      Inr [cc_call\<lparr>cc_total_tokens := 100, cc_prompt_tokens := 60, cc_completion_tokens := 40\<rparr>,
           cc_other\<lparr>cc_total_tokens := 11, cc_prompt_tokens := 0, cc_completion_tokens := 0\<rparr>,
           cc_untimed\<lparr>cc_total_tokens := 0, cc_prompt_tokens := 0, cc_completion_tokens := 0\<rparr>]"
    by (simp add: set_tokens_def extract_tokens_cc_call extract_tokens_cc_untimed
          extract_tokens_cc_other)
  have "enrich names_kept \<lparr>columns = cc_columns, rows = [cc_call, cc_other, cc_untimed]\<rparr> =
          Inr \<lparr>columns = enriched_columns,
               rows = [cc_call_enriched, cc_other_enriched, cc_untimed_enriched]\<rparr>"
    using enrich_example[OF tokens] by (simp add: example_ratios)
  then show ?thesis
    by (simp add: load_database_body_def demo_shared_raw_def demo_shared_def demo_raw_def
          demo_def)
qed



section \<open>Properties of the integer coercion\<close>

text \<open>
  \<open>parse_int\<close> reads exactly the integer literals (\<open>int_text\<close>), and \<open>py_int\<close> returns
  exactly on the values that are coercible, with the integer they are coercible to.
\<close>

lemma is_digit_range: "is_digit c \<longleftrightarrow> 48 \<le> (of_char c :: nat) \<and> (of_char c :: nat) \<le> 57"
proof
  assume "is_digit c"
  then show "48 \<le> (of_char c :: nat) \<and> (of_char c :: nat) \<le> 57"
    by (auto simp: is_digit_def)
next
  assume r: "48 \<le> (of_char c :: nat) \<and> (of_char c :: nat) \<le> 57"
  then have "(of_char c :: nat) = of_char CHR ''0'' \<or> (of_char c :: nat) = of_char CHR ''1'' \<or>
      (of_char c :: nat) = of_char CHR ''2'' \<or> (of_char c :: nat) = of_char CHR ''3'' \<or>
      (of_char c :: nat) = of_char CHR ''4'' \<or> (of_char c :: nat) = of_char CHR ''5'' \<or>
      (of_char c :: nat) = of_char CHR ''6'' \<or> (of_char c :: nat) = of_char CHR ''7'' \<or>
      (of_char c :: nat) = of_char CHR ''8'' \<or> (of_char c :: nat) = of_char CHR ''9''"
    by simp arith
  then have "c = CHR ''0'' \<or> c = CHR ''1'' \<or> c = CHR ''2'' \<or> c = CHR ''3'' \<or> c = CHR ''4'' \<or>
      c = CHR ''5'' \<or> c = CHR ''6'' \<or> c = CHR ''7'' \<or> c = CHR ''8'' \<or> c = CHR ''9''"
    unfolding of_char_eq_iff .
  then show "is_digit c" unfolding is_digit_def by auto
qed

lemma digit_val_Some: "digit_val c = Some d \<longleftrightarrow> is_digit c \<and> d = int (of_char c) - 48"
  by (auto simp: digit_val_def is_digit_range Let_def)

lemma digit_val_None: "digit_val c = None \<longleftrightarrow> \<not> is_digit c"
  by (auto simp: digit_val_def is_digit_range Let_def)

lemma digit_not_special:
  "is_digit c \<Longrightarrow> c \<noteq> CHR ''_'' \<and> c \<noteq> CHR ''-'' \<and> c \<noteq> CHR ''+'' \<and> \<not> is_space c"
  by (auto simp: is_digit_def is_space_def)


lemma digits_shape:
  "digits acc b s = Some n \<longleftrightarrow>
   (\<exists>g hs. s = g @ concat (map (\<lambda>h. CHR ''_'' # h) hs) \<and>
      list_all is_digit g \<and> (\<not> b \<longrightarrow> g \<noteq> []) \<and>
      list_all (\<lambda>h. h \<noteq> [] \<and> list_all is_digit h) hs \<and>
      n = foldl (\<lambda>n c. 10 * n + (int (of_char c) - 48)) acc (g @ concat hs))"
  (is "?L acc b s = (\<exists>g hs. ?R acc b s g hs)")
proof (induction s arbitrary: acc b)
  case Nil
  show ?case
  proof
    assume "digits acc b [] = Some n"
    then have "b" "n = acc" by (simp_all split: if_splits)
    then have "?R acc b [] [] []" by simp
    then show "\<exists>g hs. ?R acc b [] g hs" by blast
  next
    assume "\<exists>g hs. ?R acc b [] g hs"
    then obtain g hs where r: "?R acc b [] g hs" by blast
    then have g: "g = []" by simp
    from r g have "hs = []" by (cases hs) simp_all
    with r g show "digits acc b [] = Some n" by simp
  qed
next
  case (Cons c cs)
  show ?case
  proof
    assume l: "digits acc b (c # cs) = Some n"
    show "\<exists>g hs. ?R acc b (c # cs) g hs"
    proof (cases "c = CHR ''_''")
      case True
      with l have b: "b" and rest: "digits acc False cs = Some n"
        by (simp_all split: if_splits)
      from rest Cons.IH[of acc False] obtain g hs where r: "?R acc False cs g hs" by blast
      from r True b have "?R acc b (c # cs) [] (g # hs)" by simp
      then show ?thesis by blast
    next
      case False
      with l obtain d where d: "digit_val c = Some d"
        and rest: "digits (10 * acc + d) True cs = Some n"
        by (auto split: option.splits)
      from d have dig: "is_digit c" and dv: "d = int (of_char c) - 48"
        by (simp_all add: digit_val_Some)
      from rest Cons.IH[of "10 * acc + d" True] obtain g hs where
        r: "?R (10 * acc + d) True cs g hs" by blast
      from r dig dv have "?R acc b (c # cs) (c # g) hs" by simp
      then show ?thesis by blast
    qed
  next
    assume "\<exists>g hs. ?R acc b (c # cs) g hs"
    then obtain g hs where r: "?R acc b (c # cs) g hs" by blast
    show "digits acc b (c # cs) = Some n"
    proof (cases g)
      case Nil
      with r have b: "b" by simp
      from r Nil obtain h hs' where hs: "hs = h # hs'" by (cases hs) auto
      from r Nil hs have c: "c = CHR ''_''"
        and cs: "cs = h @ concat (map (\<lambda>h. CHR ''_'' # h) hs')"
        by simp_all
      from r Nil hs cs have "?R acc False cs h hs'" by simp
      then have "digits acc False cs = Some n" using Cons.IH[of acc False] by blast
      with b c show ?thesis by simp
    next
      case (Cons x g')
      with r have x: "x = c" and cs: "cs = g' @ concat (map (\<lambda>h. CHR ''_'' # h) hs)"
        and dig: "is_digit c"
        by simp_all
      from dig have d: "digit_val c = Some (int (of_char c) - 48)"
        by (simp add: digit_val_Some)
      from dig have nu: "c \<noteq> CHR ''_''" using digit_not_special by blast
      from r Cons x cs have "?R (10 * acc + (int (of_char c) - 48)) True cs g' hs" by simp
      then have "digits (10 * acc + (int (of_char c) - 48)) True cs = Some n"
        using Cons.IH[of "10 * acc + (int (of_char c) - 48)" True] by blast
      with d nu show ?thesis by simp
    qed
  qed
qed

lemma count_digits_body:
  assumes "list_all is_digit g" and "list_all (\<lambda>h. h \<noteq> [] \<and> list_all is_digit h) hs"
  shows "filter (\<lambda>c. digit_val c \<noteq> None) (g @ concat (map (\<lambda>h. CHR ''_'' # h) hs)) = g @ concat hs"
proof -
  have f: "(\<lambda>c. digit_val c \<noteq> None) = is_digit" by (auto simp: digit_val_None)
  have u: "\<not> is_digit CHR ''_''" by (simp add: is_digit_def)
  have one: "\<And>g. list_all is_digit g \<Longrightarrow> filter is_digit g = g"
    by (simp add: list_all_iff)
  from assms(2) have "filter is_digit (concat (map (\<lambda>h. CHR ''_'' # h) hs)) = concat hs"
    by (induction hs) (simp_all add: u one)
  with one[OF assms(1)] show ?thesis unfolding f by simp
qed

lemma body_no_space:
  assumes "list_all is_digit g" and "list_all (\<lambda>h. h \<noteq> [] \<and> list_all is_digit h) hs"
  shows "list_all (\<lambda>c. \<not> is_space c) (g @ concat (map (\<lambda>h. CHR ''_'' # h) hs))"
proof -
  have u: "\<not> is_space CHR ''_''" by (simp add: is_space_def)
  have one: "\<And>g. list_all is_digit g \<Longrightarrow> list_all (\<lambda>c. \<not> is_space c) g"
    using digit_not_special by (auto simp: list_all_iff)
  from assms(2) have "list_all (\<lambda>c. \<not> is_space c) (concat (map (\<lambda>h. CHR ''_'' # h) hs))"
    by (induction hs) (simp_all add: u one)
  with one[OF assms(1)] show ?thesis by simp
qed

lemma trim_pad:
  assumes pre: "list_all is_space pre" and post: "list_all is_space post"
    and m: "m \<noteq> []" "\<not> is_space (hd m)" "\<not> is_space (last m)"
  shows "trim (pre @ m @ post) = m"
proof -
  from m obtain x xs where mx: "m = x # xs" and x: "\<not> is_space x" by (cases m) auto
  have "dropWhile is_space (pre @ m @ post) = dropWhile is_space (m @ post)"
    using pre by (simp add: list_all_iff)
  also have "\<dots> = m @ post" using mx x by simp
  finally have d: "dropWhile is_space (pre @ m @ post) = m @ post" .
  from m obtain y ys where ry: "rev m = y # ys" and y: "\<not> is_space y"
    by (cases "rev m") (auto simp: last_rev[symmetric] hd_rev)
  have "dropWhile is_space (rev post @ rev m) = dropWhile is_space (rev m)"
    using post by (intro dropWhile_append2) (simp add: list_all_iff)
  also have "\<dots> = rev m" using ry y by simp
  finally have "dropWhile is_space (rev (m @ post)) = rev m" by simp
  then show ?thesis unfolding trim_def d by simp
qed

lemma trim_decomp:
  "\<exists>pre post. s = pre @ trim s @ post \<and> list_all is_space pre \<and> list_all is_space post"
proof -
  let ?d = "dropWhile is_space s"
  have 1: "s = takeWhile is_space s @ ?d" by simp
  have "rev (takeWhile is_space (rev ?d) @ dropWhile is_space (rev ?d)) = rev (rev ?d)"
    by (simp only: takeWhile_dropWhile_id)
  then have "rev (dropWhile is_space (rev ?d)) @ rev (takeWhile is_space (rev ?d)) = ?d"
    by (simp only: rev_append rev_rev_ident)
  then have 2: "?d = trim s @ rev (takeWhile is_space (rev ?d))"
    unfolding trim_def by (rule sym)
  have a: "list_all is_space (takeWhile is_space s)"
    by (auto simp: list_all_iff dest: set_takeWhileD)
  have b: "list_all is_space (rev (takeWhile is_space (rev ?d)))"
    by (auto simp: list_all_iff dest: set_takeWhileD)
  from 1 2 have "s = takeWhile is_space s @ trim s @ rev (takeWhile is_space (rev ?d))"
    by metis
  with a b show ?thesis by blast
qed

lemma numeral_value_shape:
  "numeral_value body = Some n \<longleftrightarrow>
   (\<exists>gs. body = underscored gs \<and> gs \<noteq> [] \<and>
      list_all (\<lambda>g. g \<noteq> [] \<and> list_all is_digit g) gs \<and>
      length (concat gs) \<le> 4300 \<and> n = decimal (concat gs))"
proof
  assume l: "numeral_value body = Some n"
  then have len: "length (filter (\<lambda>c. digit_val c \<noteq> None) body) \<le> 4300"
    and d: "digits 0 False body = Some n"
    by (simp_all add: numeral_value_def split: if_splits)
  from d[unfolded digits_shape] obtain g hs where
    body: "body = g @ concat (map (\<lambda>h. CHR ''_'' # h) hs)" and g: "list_all is_digit g" "g \<noteq> []"
    and hs: "list_all (\<lambda>h. h \<noteq> [] \<and> list_all is_digit h) hs"
    and n: "n = foldl (\<lambda>n c. 10 * n + (int (of_char c) - 48)) 0 (g @ concat hs)"
    by auto
  from len have "length (g @ concat hs) \<le> 4300"
    unfolding body count_digits_body[OF g(1) hs] .
  with body g hs n have "body = underscored (g # hs) \<and> g # hs \<noteq> [] \<and>
      list_all (\<lambda>g. g \<noteq> [] \<and> list_all is_digit g) (g # hs) \<and>
      length (concat (g # hs)) \<le> 4300 \<and> n = decimal (concat (g # hs))"
    by (simp add: underscored_def decimal_def)
  then show "\<exists>gs. body = underscored gs \<and> gs \<noteq> [] \<and>
      list_all (\<lambda>g. g \<noteq> [] \<and> list_all is_digit g) gs \<and>
      length (concat gs) \<le> 4300 \<and> n = decimal (concat gs)"
    by blast
next
  assume "\<exists>gs. body = underscored gs \<and> gs \<noteq> [] \<and>
      list_all (\<lambda>g. g \<noteq> [] \<and> list_all is_digit g) gs \<and>
      length (concat gs) \<le> 4300 \<and> n = decimal (concat gs)"
  then obtain gs where r: "body = underscored gs" "gs \<noteq> []"
      "list_all (\<lambda>g. g \<noteq> [] \<and> list_all is_digit g) gs"
      "length (concat gs) \<le> 4300" "n = decimal (concat gs)"
    by blast
  from r(2) obtain g hs where gs: "gs = g # hs" by (cases gs) auto
  from r gs have body: "body = g @ concat (map (\<lambda>h. CHR ''_'' # h) hs)"
    and g: "list_all is_digit g" "g \<noteq> []"
    and hs: "list_all (\<lambda>h. h \<noteq> [] \<and> list_all is_digit h) hs"
    and len: "length (g @ concat hs) \<le> 4300"
    and n: "n = foldl (\<lambda>n c. 10 * n + (int (of_char c) - 48)) 0 (g @ concat hs)"
    by (simp_all add: underscored_def decimal_def)
  have "digits 0 False body = Some n"
    unfolding digits_shape using body g hs n by blast
  moreover have "length (filter (\<lambda>c. digit_val c \<noteq> None) body) \<le> 4300"
    unfolding body count_digits_body[OF g(1) hs] using len .
  ultimately show "numeral_value body = Some n"
    by (simp add: numeral_value_def)
qed


lemma parse_int_text: "parse_int s = Some n \<longleftrightarrow> int_text s n"
proof
  assume l: "parse_int s = Some n"
  then obtain c cs where t: "trim s = c # cs"
    by (cases "trim s") (simp_all add: parse_int_def)
  from trim_decomp[of s] obtain pre post where
    s: "s = pre @ trim s @ post" and pre: "list_all is_space pre" and post: "list_all is_space post"
    by blast
  consider (minus) "c = CHR ''-''" | (plus) "c = CHR ''+''" | (none) "c \<noteq> CHR ''-''" "c \<noteq> CHR ''+''"
    by blast
  then show "int_text s n"
  proof cases
    case minus
    with l t obtain k where k: "numeral_value cs = Some k" and n: "n = - k"
      by (auto simp: parse_int_def)
    from k[unfolded numeral_value_shape] obtain gs where
      gs: "cs = underscored gs" "gs \<noteq> []" "list_all (\<lambda>g. g \<noteq> [] \<and> list_all is_digit g) gs"
        "length (concat gs) \<le> 4300" "k = decimal (concat gs)"
      by blast
    have "s = pre @ ''-'' @ underscored gs @ post"
      using s t minus gs(1) by simp
    with pre post gs n show ?thesis
      unfolding int_text_def by (intro exI[of _ pre] exI[of _ "''-''"] exI[of _ gs] exI[of _ post]) simp
  next
    case plus
    with l t have k: "numeral_value cs = Some n"
      by (auto simp: parse_int_def)
    from k[unfolded numeral_value_shape] obtain gs where
      gs: "cs = underscored gs" "gs \<noteq> []" "list_all (\<lambda>g. g \<noteq> [] \<and> list_all is_digit g) gs"
        "length (concat gs) \<le> 4300" "n = decimal (concat gs)"
      by blast
    have "s = pre @ ''+'' @ underscored gs @ post"
      using s t plus gs(1) by simp
    with pre post gs show ?thesis
      unfolding int_text_def by (intro exI[of _ pre] exI[of _ "''+''"] exI[of _ gs] exI[of _ post]) simp
  next
    case none
    with l t have k: "numeral_value (c # cs) = Some n"
      by (auto simp: parse_int_def)
    from k[unfolded numeral_value_shape] obtain gs where
      gs: "c # cs = underscored gs" "gs \<noteq> []" "list_all (\<lambda>g. g \<noteq> [] \<and> list_all is_digit g) gs"
        "length (concat gs) \<le> 4300" "n = decimal (concat gs)"
      by blast
    have "s = pre @ [] @ underscored gs @ post"
      using s t gs(1) by simp
    with pre post gs show ?thesis
      unfolding int_text_def by (intro exI[of _ pre] exI[of _ "[]"] exI[of _ gs] exI[of _ post]) simp
  qed
next
  assume "int_text s n"
  then obtain pre sg gs post where
    s: "s = pre @ sg @ underscored gs @ post" and pre: "list_all is_space pre"
    and post: "list_all is_space post" and sg: "sg = [] \<or> sg = ''+'' \<or> sg = ''-''"
    and gs: "gs \<noteq> []" "list_all (\<lambda>g. g \<noteq> [] \<and> list_all is_digit g) gs"
      "length (concat gs) \<le> 4300"
    and n: "n = (if sg = ''-'' then - decimal (concat gs) else decimal (concat gs))"
    unfolding int_text_def by blast
  let ?body = "underscored gs"
  have val: "numeral_value ?body = Some (decimal (concat gs))"
    unfolding numeral_value_shape using gs by blast
  from gs(1) obtain g hs where ghs: "gs = g # hs" by (cases gs) auto
  from gs(2) ghs obtain d ds where g: "g = d # ds" and d: "is_digit d"
    by (cases g) auto
  have body: "?body = d # (ds @ concat (map (\<lambda>h. CHR ''_'' # h) hs))"
    by (simp add: underscored_def ghs g)
  have "list_all (\<lambda>c. \<not> is_space c) ?body"
    using body_no_space[of g hs] gs(2) ghs by (simp add: underscored_def)
  moreover have "list_all (\<lambda>c. \<not> is_space c) sg"
    using sg by (auto simp: is_space_def)
  ultimately have ns: "list_all (\<lambda>c. \<not> is_space c) (sg @ ?body)" by simp
  have ne: "sg @ ?body \<noteq> []" using body by simp
  have "hd (sg @ ?body) \<in> set (sg @ ?body)" "last (sg @ ?body) \<in> set (sg @ ?body)"
    using ne by (simp_all del: set_append)
  with ns have ends: "\<not> is_space (hd (sg @ ?body))" "\<not> is_space (last (sg @ ?body))"
    unfolding list_all_iff by blast+
  have "trim (pre @ (sg @ ?body) @ post) = sg @ ?body"
    by (rule trim_pad[OF pre post ne ends])
  then have t: "trim s = sg @ ?body" unfolding s by simp
  from d have dn: "d \<noteq> CHR ''-''" "d \<noteq> CHR ''+''" using digit_not_special by blast+
  from sg consider "sg = []" | "sg = ''+''" | "sg = ''-''" by blast
  then show "parse_int s = Some n"
  proof cases
    case 1
    then have "trim s = d # (ds @ concat (map (\<lambda>h. CHR ''_'' # h) hs))"
      using t body by simp
    then have "parse_int s = numeral_value ?body"
      unfolding body using dn by (simp add: parse_int_def)
    with val n 1 show ?thesis by simp
  next
    case 2
    then have "trim s = CHR ''+'' # ?body" using t by simp
    then have "parse_int s = numeral_value ?body"
      by (simp add: parse_int_def)
    with val n 2 show ?thesis by simp
  next
    case 3
    then have "trim s = CHR ''-'' # ?body" using t by simp
    then have "parse_int s = map_option uminus (numeral_value ?body)"
      by (simp add: parse_int_def)
    with val n 3 show ?thesis by simp
  qed
qed

lemma py_int_coerces: "py_int v = Inr n \<longleftrightarrow> coerces v n"
proof (induction v rule: py_int.induct)
  case (3 r)
  show ?case by (auto simp: ceiling_def)
next
  case (7 s)
  show ?case using parse_int_text[of s n] by (cases "parse_int s") auto
qed auto

lemma py_int_fails: "(\<exists>e. py_int v = Inl e) \<longleftrightarrow> \<not> (\<exists>n. coerces v n)"
proof -
  have "(\<exists>e. py_int v = Inl e) \<longleftrightarrow> \<not> (\<exists>n. py_int v = Inr n)"
    by (cases "py_int v") simp_all
  then show ?thesis unfolding py_int_coerces .
qed

lemma usage_int_obj:
  "usage_int (JObj u) k = (case map_of u k of None \<Rightarrow> Inr 0 | Some v \<Rightarrow> py_int v)"
  by (simp add: usage_int_def split: option.splits)

lemma extract_tokens_obj:
  assumes "dict_get resp ''usage'' (JObj []) = Inr (JObj u)"
  shows "extract_tokens resp =
     (case usage_int (JObj u) ''total_tokens'' of
        Inl e \<Rightarrow> Inl e
      | Inr a \<Rightarrow>
          (case usage_int (JObj u) ''prompt_tokens'' of
             Inl e \<Rightarrow> Inl e
           | Inr b \<Rightarrow>
               (case usage_int (JObj u) ''completion_tokens'' of
                  Inl e \<Rightarrow> Inl e
                | Inr c \<Rightarrow> Inr (a, b, c))))"
  using assms by (simp add: extract_tokens_def)

lemma enrich_fails:
  assumes r: "r \<in> set (rows cc)" and bad: "extract_tokens (cc_response_dict r) = Inl e"
  shows "\<exists>e'. enrich f cc = Inl e'"
proof -
  have ne: "rows cc \<noteq> []" using r by auto
  show ?thesis
  proof (cases "set_source_name f cc")
    case (Inl e1)
    then show ?thesis
      unfolding enrich_nonempty[OF ne]
      by (cases "''end_time'' \<notin> columns cc \<or> ''start_time'' \<notin> columns cc") simp_all
  next
    case (Inr named)
    from r obtain i where i: "i < length (rows cc)" and ri: "rows cc ! i = r"
      by (auto simp: in_set_conv_nth)
    from set_source_name_Inr[OF Inr] have len: "length named = length (rows cc)" by simp
    from set_source_name_fields(1)[OF Inr i] ri bad
    have fails: "set_tokens (named ! i) = Inl e" by (simp add: set_tokens_def)
    have mem: "named ! i \<in> set named" using i len by simp
    from apply_rows_fails[of "named ! i" named set_tokens e, OF mem fails]
    obtain e' where e': "apply_rows set_tokens named = Inl e'" ..
    show ?thesis
      unfolding enrich_nonempty[OF ne] using Inr e'
      by (cases "''end_time'' \<notin> columns cc \<or> ''start_time'' \<notin> columns cc") simp_all
  qed
qed

lemma load_database_fails:
  assumes "r \<in> set (rows (chat_completions t))"
    and "extract_tokens (cc_response_dict r) = Inl e"
  shows "load_database f t = None"
  using enrich_fails[OF assms, of f] by (auto simp: load_database_def load_database_body_def)

lemma usage_int_ok:
  assumes "\<forall>v. map_of u k = Some v \<longrightarrow> (\<exists>n. coerces v n)"
  shows "\<exists>n. usage_int (JObj u) k = Inr n \<and> usage_count u k n"
  using assms by (cases "map_of u k") (auto simp: usage_int_obj usage_count_def py_int_coerces)

lemma usage_int_bad:
  assumes "map_of u k = Some v" and "\<not> (\<exists>n. coerces v n)"
  shows "\<exists>e. usage_int (JObj u) k = Inl e"
  using assms py_int_fails[of v] by (simp add: usage_int_obj)

lemma extract_tokens_fails:
  assumes usage: "dict_get resp ''usage'' (JObj []) = Inr (JObj u)"
    and k: "k = ''total_tokens'' \<or> k = ''prompt_tokens'' \<or> k = ''completion_tokens''"
    and bad: "usage_int (JObj u) k = Inl e"
  shows "\<exists>e'. extract_tokens resp = Inl e'"
proof (cases "usage_int (JObj u) ''total_tokens''")
  case (Inl e1)
  then show ?thesis unfolding extract_tokens_obj[OF usage] by simp
next
  case a: (Inr a)
  show ?thesis
  proof (cases "usage_int (JObj u) ''prompt_tokens''")
    case (Inl e2)
    then show ?thesis unfolding extract_tokens_obj[OF usage] using a by simp
  next
    case b: (Inr b)
    from k bad a b have "usage_int (JObj u) ''completion_tokens'' = Inl e" by auto
    then show ?thesis unfolding extract_tokens_obj[OF usage] using a b by simp
  qed
qed

lemma extract_tokens_without_object:
  "(\<forall>kvs. resp \<noteq> JObj kvs) \<Longrightarrow> extract_tokens resp = Inl AttributeError"
  "dict_get resp ''usage'' (JObj []) = Inr usage \<Longrightarrow> (\<forall>u. usage \<noteq> JObj u) \<Longrightarrow>
   extract_tokens resp = Inl AttributeError"
proof -
  show "(\<forall>kvs. resp \<noteq> JObj kvs) \<Longrightarrow> extract_tokens resp = Inl AttributeError"
    by (cases resp) (simp_all add: extract_tokens_def)
  show "dict_get resp ''usage'' (JObj []) = Inr usage \<Longrightarrow> (\<forall>u. usage \<noteq> JObj u) \<Longrightarrow>
        extract_tokens resp = Inl AttributeError"
    by (cases usage) (simp_all add: extract_tokens_def usage_int_def)
qed

lemma parse_int_examples:
  "parse_int ''abc'' = None"
  "parse_int '' 1_200 '' = Some 1200"
  "parse_int ''12'' = Some 12"
  "parse_int ''-7'' = Some (- 7)"
  "parse_int ''1__0'' = None"
  "parse_int [] = None"
  "parse_int [CHR 0xA0, CHR ''5''] = Some 5"
  "parse_int [CHR 0x1F, CHR ''5''] = None"
  by (simp_all add: parse_int_def trim_def is_space_def numeral_value_def digit_val_def)

lemma py_int_examples:
  "py_int (JStr ''abc'') = Inl ValueError"
  "py_int (JStr '' 1_200 '') = Inr 1200"
  "py_int (JStr ''12'') = Inr 12"
  "py_int (JStr ''-7'') = Inr (- 7)"
  "py_int (JStr ''1__0'') = Inl ValueError"
  "py_int (JStr []) = Inl ValueError"
  "py_int (JStr [CHR 0xA0, CHR ''5'']) = Inr 5"
  "py_int (JStr [CHR 0x1F, CHR ''5'']) = Inl ValueError"
  "py_int (JFloat (Fin (7009 / 10))) = Inr 700"
  "py_int (JFloat (Fin (- 7009 / 10))) = Inr (- 700)"
  by (simp_all add: parse_int_examples)

lemma extract_tokens_examples:
  "extract_tokens (cc_response_dict cc_garbled) = Inl ValueError"
  "extract_tokens (cc_response_dict cc_nulled) = Inl TypeError"
  "extract_tokens (cc_response_dict cc_spelled) = Inr (1200, 700, 1)"
  "extract_tokens (cc_response_dict cc_partial) = Inr (0, 12, 0)"
  by (simp_all add: cc_garbled_def cc_nulled_def cc_spelled_def cc_partial_def
        extract_tokens_def usage_int_def parse_int_examples)

text \<open>
  C6. The three usage counts are read from the \<open>usage\<close> object of the parsed response (an
  empty object when the response has no \<open>usage\<close>). When every count that is present is
  coercible to an integer, the extraction returns the three counts, each the integer its
  value is coercible to and 0 when its key is absent. When a count that is present is not
  coercible (a text that is no integer literal such as \<open>abc\<close>, a null, a list, an object,
  NaN or an infinity), the extraction raises, and \<open>load_database\<close> of any tables holding
  such a row fails (it returns \<open>None\<close>) rather than taking 0, whatever the string methods
  \<open>f\<close> of pandas return. A response or a \<open>usage\<close> that is not an object raises as well
  (\<open>extract_tokens_without_object\<close>).
\<close>

theorem usage_tokens_read_or_fail:
  assumes usage: "dict_get resp ''usage'' (JObj []) = Inr (JObj u)"
  shows "((\<forall>k \<in> {''total_tokens'', ''prompt_tokens'', ''completion_tokens''}.
             \<forall>v. map_of u k = Some v \<longrightarrow> (\<exists>n. coerces v n)) \<longrightarrow>
          (\<exists>a b c. extract_tokens resp = Inr (a, b, c) \<and>
             usage_count u ''total_tokens'' a \<and> usage_count u ''prompt_tokens'' b \<and>
             usage_count u ''completion_tokens'' c)) \<and>
         ((\<exists>k \<in> {''total_tokens'', ''prompt_tokens'', ''completion_tokens''}.
             \<exists>v. map_of u k = Some v \<and> \<not> (\<exists>n. coerces v n)) \<longrightarrow>
          (\<exists>e. extract_tokens resp = Inl e) \<and>
          (\<forall>f (t :: tables) r.
              r \<in> set (rows (chat_completions t)) \<and> cc_response_dict r = resp \<longrightarrow>
              load_database f t = None))"
proof (intro conjI impI)
  assume ok: "\<forall>k \<in> {''total_tokens'', ''prompt_tokens'', ''completion_tokens''}.
             \<forall>v. map_of u k = Some v \<longrightarrow> (\<exists>n. coerces v n)"
  from ok have "\<forall>v. map_of u ''total_tokens'' = Some v \<longrightarrow> (\<exists>n. coerces v n)" by blast
  from usage_int_ok[OF this] obtain a where
    a: "usage_int (JObj u) ''total_tokens'' = Inr a" "usage_count u ''total_tokens'' a"
    by blast
  from ok have "\<forall>v. map_of u ''prompt_tokens'' = Some v \<longrightarrow> (\<exists>n. coerces v n)" by blast
  from usage_int_ok[OF this] obtain b where
    b: "usage_int (JObj u) ''prompt_tokens'' = Inr b" "usage_count u ''prompt_tokens'' b"
    by blast
  from ok have "\<forall>v. map_of u ''completion_tokens'' = Some v \<longrightarrow> (\<exists>n. coerces v n)" by blast
  from usage_int_ok[OF this] obtain c where
    c: "usage_int (JObj u) ''completion_tokens'' = Inr c" "usage_count u ''completion_tokens'' c"
    by blast
  have "extract_tokens resp = Inr (a, b, c)"
    unfolding extract_tokens_obj[OF usage] using a(1) b(1) c(1) by simp
  with a(2) b(2) c(2)
  show "\<exists>a b c. extract_tokens resp = Inr (a, b, c) \<and>
             usage_count u ''total_tokens'' a \<and> usage_count u ''prompt_tokens'' b \<and>
             usage_count u ''completion_tokens'' c"
    by blast
next
  assume bad: "\<exists>k \<in> {''total_tokens'', ''prompt_tokens'', ''completion_tokens''}.
             \<exists>v. map_of u k = Some v \<and> \<not> (\<exists>n. coerces v n)"
  then obtain k v where
    k: "k = ''total_tokens'' \<or> k = ''prompt_tokens'' \<or> k = ''completion_tokens''" and
    v: "map_of u k = Some v" "\<not> (\<exists>n. coerces v n)"
    by blast
  from usage_int_bad[OF v] obtain e where "usage_int (JObj u) k = Inl e" ..
  from extract_tokens_fails[OF usage k this]
  have fails: "\<exists>e. extract_tokens resp = Inl e" .
  then show "\<exists>e. extract_tokens resp = Inl e" .
  from fails obtain e' where e': "extract_tokens resp = Inl e'" ..
  show "\<forall>f (t :: tables) r.
          r \<in> set (rows (chat_completions t)) \<and> cc_response_dict r = resp \<longrightarrow>
          load_database f t = None"
  proof (intro allI impI)
    fix f and t :: tables and r
    assume "r \<in> set (rows (chat_completions t)) \<and> cc_response_dict r = resp"
    then have "r \<in> set (rows (chat_completions t))" "extract_tokens (cc_response_dict r) = Inl e'"
      using e' by simp_all
    then show "load_database f t = None" by (rule load_database_fails)
  qed
qed

theorem usage_tokens_read_or_fail_witness:
  "extract_tokens (cc_response_dict cc_garbled) = Inl ValueError \<and>
   (\<forall>f. load_database f (demo_raw\<lparr>chat_completions :=
                    \<lparr>columns = cc_columns, rows = [cc_call, cc_garbled]\<rparr>\<rparr>) = None) \<and>
   extract_tokens (cc_response_dict cc_nulled) = Inl TypeError \<and>
   (\<forall>f. load_database f (demo_raw\<lparr>chat_completions :=
                    \<lparr>columns = cc_columns, rows = [cc_call, cc_nulled]\<rparr>\<rparr>) = None) \<and>
   (\<exists>a b c. extract_tokens (cc_response_dict cc_spelled) = Inr (a, b, c) \<and>
      coerces (JStr '' 1_200 '') a \<and> a = 1200 \<and>
      coerces (JFloat (Fin (7009 / 10))) b \<and> b = 700 \<and>
      coerces (JBool True) c \<and> c = 1) \<and>
   (\<exists>a b c. extract_tokens (cc_response_dict cc_partial) = Inr (a, b, c) \<and>
      a = 0 \<and> coerces (JStr ''12'') b \<and> b = 12 \<and> c = 0) \<and>
   extract_tokens (JObj [(''usage'', JObj [(''total_tokens'', JStr [CHR 0xA0, CHR ''5''])])]) =
     Inr (5, 0, 0) \<and>
   extract_tokens (JObj [(''usage'', JObj [(''total_tokens'', JStr [CHR 0x1F, CHR ''5''])])]) =
     Inl ValueError"
proof -
  have garbled: "dict_get (cc_response_dict cc_garbled) ''usage'' (JObj []) =
             Inr (JObj [(''total_tokens'', JStr ''abc'')])"
    by (simp add: cc_garbled_def)
  have "\<not> (\<exists>n. coerces (JStr ''abc'') n)"
    unfolding py_int_fails[symmetric] by (simp add: parse_int_examples)
  then have bad1: "\<exists>k \<in> {''total_tokens'', ''prompt_tokens'', ''completion_tokens''}.
      \<exists>v. map_of [(''total_tokens'', JStr ''abc'')] k = Some v \<and> \<not> (\<exists>n. coerces v n)"
    by simp
  have row1: "cc_garbled \<in> set (rows (chat_completions (demo_raw\<lparr>chat_completions :=
                    \<lparr>columns = cc_columns, rows = [cc_call, cc_garbled]\<rparr>\<rparr>))) \<and>
              cc_response_dict cc_garbled = cc_response_dict cc_garbled"
    by simp
  have load1: "load_database f (demo_raw\<lparr>chat_completions :=
                    \<lparr>columns = cc_columns, rows = [cc_call, cc_garbled]\<rparr>\<rparr>) = None" for f
    using usage_tokens_read_or_fail[OF garbled] bad1 row1 by blast
  have nulled: "dict_get (cc_response_dict cc_nulled) ''usage'' (JObj []) =
             Inr (JObj [(''total_tokens'', JInt 7), (''prompt_tokens'', JNull)])"
    by (simp add: cc_nulled_def)
  have bad2: "\<exists>k \<in> {''total_tokens'', ''prompt_tokens'', ''completion_tokens''}.
      \<exists>v. map_of [(''total_tokens'', JInt 7), (''prompt_tokens'', JNull)] k = Some v \<and>
          \<not> (\<exists>n. coerces v n)"
    by simp
  have row2: "cc_nulled \<in> set (rows (chat_completions (demo_raw\<lparr>chat_completions :=
                    \<lparr>columns = cc_columns, rows = [cc_call, cc_nulled]\<rparr>\<rparr>))) \<and>
              cc_response_dict cc_nulled = cc_response_dict cc_nulled"
    by simp
  have load2: "load_database f (demo_raw\<lparr>chat_completions :=
                    \<lparr>columns = cc_columns, rows = [cc_call, cc_nulled]\<rparr>\<rparr>) = None" for f
    using usage_tokens_read_or_fail[OF nulled] bad2 row2 by blast
  have spelled: "dict_get (cc_response_dict cc_spelled) ''usage'' (JObj []) =
      Inr (JObj [(''total_tokens'', JStr '' 1_200 ''),
                 (''prompt_tokens'', JFloat (Fin (7009 / 10))),
                 (''completion_tokens'', JBool True)])"
    by (simp add: cc_spelled_def)
  have c1: "coerces (JStr '' 1_200 '') 1200"
    unfolding py_int_coerces[symmetric] by (simp add: parse_int_examples)
  have c2: "coerces (JFloat (Fin (7009 / 10))) 700"
    unfolding py_int_coerces[symmetric] by (simp add: parse_int_examples)
  have ok3: "\<forall>k \<in> {''total_tokens'', ''prompt_tokens'', ''completion_tokens''}.
      \<forall>v. map_of [(''total_tokens'', JStr '' 1_200 ''),
                  (''prompt_tokens'', JFloat (Fin (7009 / 10))),
                  (''completion_tokens'', JBool True)] k = Some v \<longrightarrow> (\<exists>n. coerces v n)"
    using c1 c2 by auto
  from usage_tokens_read_or_fail[OF spelled] ok3
  obtain a b c where abc: "extract_tokens (cc_response_dict cc_spelled) = Inr (a, b, c)"
    and counts: "usage_count [(''total_tokens'', JStr '' 1_200 ''),
                 (''prompt_tokens'', JFloat (Fin (7009 / 10))),
                 (''completion_tokens'', JBool True)] ''total_tokens'' a"
      "usage_count [(''total_tokens'', JStr '' 1_200 ''),
                 (''prompt_tokens'', JFloat (Fin (7009 / 10))),
                 (''completion_tokens'', JBool True)] ''prompt_tokens'' b"
      "usage_count [(''total_tokens'', JStr '' 1_200 ''),
                 (''prompt_tokens'', JFloat (Fin (7009 / 10))),
                 (''completion_tokens'', JBool True)] ''completion_tokens'' c"
    by blast
  from counts have co: "coerces (JStr '' 1_200 '') a" "coerces (JFloat (Fin (7009 / 10))) b"
    "coerces (JBool True) c"
    by (simp_all add: usage_count_def)
  from abc have vals: "a = 1200" "b = 700" "c = 1"
    by (simp_all add: extract_tokens_examples)
  have third: "\<exists>a b c. extract_tokens (cc_response_dict cc_spelled) = Inr (a, b, c) \<and>
      coerces (JStr '' 1_200 '') a \<and> a = 1200 \<and>
      coerces (JFloat (Fin (7009 / 10))) b \<and> b = 700 \<and>
      coerces (JBool True) c \<and> c = 1"
    using abc co vals by blast
  have partial: "dict_get (cc_response_dict cc_partial) ''usage'' (JObj []) =
      Inr (JObj [(''prompt_tokens'', JStr ''12'')])"
    by (simp add: cc_partial_def)
  have c4: "coerces (JStr ''12'') 12"
    unfolding py_int_coerces[symmetric] by (simp add: parse_int_examples)
  have ok4: "\<forall>k \<in> {''total_tokens'', ''prompt_tokens'', ''completion_tokens''}.
      \<forall>v. map_of [(''prompt_tokens'', JStr ''12'')] k = Some v \<longrightarrow> (\<exists>n. coerces v n)"
    using c4 by auto
  from usage_tokens_read_or_fail[OF partial] ok4
  obtain a' b' c' where abc': "extract_tokens (cc_response_dict cc_partial) = Inr (a', b', c')"
    and counts': "usage_count [(''prompt_tokens'', JStr ''12'')] ''total_tokens'' a'"
      "usage_count [(''prompt_tokens'', JStr ''12'')] ''prompt_tokens'' b'"
      "usage_count [(''prompt_tokens'', JStr ''12'')] ''completion_tokens'' c'"
    by blast
  from counts' have co': "a' = 0" "coerces (JStr ''12'') b'" "c' = 0"
    by (simp_all add: usage_count_def)
  from abc' have "b' = 12" by (simp add: extract_tokens_examples)
  with abc' co' have fourth: "\<exists>a b c. extract_tokens (cc_response_dict cc_partial) = Inr (a, b, c) \<and>
      a = 0 \<and> coerces (JStr ''12'') b \<and> b = 12 \<and> c = 0"
    by blast
  have spaced: "extract_tokens
      (JObj [(''usage'', JObj [(''total_tokens'', JStr [CHR 0xA0, CHR ''5''])])]) = Inr (5, 0, 0)"
    "extract_tokens
      (JObj [(''usage'', JObj [(''total_tokens'', JStr [CHR 0x1F, CHR ''5''])])]) = Inl ValueError"
    by (simp_all add: extract_tokens_def usage_int_def parse_int_examples)
  show ?thesis
    using extract_tokens_examples(1) load1 extract_tokens_examples(2) load2 third fourth spaced
    by (intro conjI allI)
qed

section \<open>Properties of the identity map\<close>

lemma fold_registrations:
  assumes step: "\<And>row m. f row m = m ++ map_of (rev (g row))"
  shows "fold f rs m = m ++ map_of (rev (concat (map g rs)))"
proof (induction rs arbitrary: m)
  case Nil
  then show ?case by simp
next
  case (Cons r rs)
  have "fold f (r # rs) m = fold f rs (f r m)" by simp
  also have "\<dots> = (m ++ map_of (rev (g r))) ++ map_of (rev (concat (map g rs)))"
    unfolding Cons.IH step ..
  also have "\<dots> = m ++ map_of (rev (concat (map g (r # rs))))"
    by simp
  finally show ?case .
qed

lemma register_registration:
  "''session_id'' \<in> cols \<Longrightarrow>
   register cols c v s m = m ++ map_of (rev (registration cols c v (Some s)))"
  by (cases v) (simp_all add: register_def registration_def)

lemma registration_no_session [simp]: "registration cols c v None = []"
  by (cases v) (simp_all add: registration_def)

lemma registration_no_column [simp]: "''session_id'' \<notin> cols \<Longrightarrow> registration cols c v s = []"
  by (cases v; cases s) (simp_all add: registration_def)

lemma register_agent_registration:
  "register_agent cols row m =
     m ++ map_of (rev (registration cols ''wrapper_id'' (ag_wrapper_id row) (ag_session_id row) @
                       registration cols ''agent_id'' (ag_agent_id row) (ag_session_id row)))"
proof (cases "''session_id'' \<in> cols")
  case False
  then show ?thesis by (simp add: register_agent_def)
next
  case True
  show ?thesis
  proof (cases "ag_session_id row")
    case None
    then show ?thesis using True by (simp add: register_agent_def)
  next
    case (Some s)
    then show ?thesis using True
      by (simp add: register_agent_def register_registration)
  qed
qed

lemma register_client_registration:
  "register_client cols row m =
     m ++ map_of (rev (registration cols ''client_id'' (cl_client_id row) (cl_session_id row) @
                       registration cols ''wrapper_id'' (cl_wrapper_id row) (cl_session_id row)))"
proof (cases "''session_id'' \<in> cols")
  case False
  then show ?thesis by (simp add: register_client_def)
next
  case True
  show ?thesis
  proof (cases "cl_session_id row")
    case None
    then show ?thesis using True by (simp add: register_client_def)
  next
    case (Some s)
    then show ?thesis using True
      by (simp add: register_client_def register_registration)
  qed
qed

lemma register_wrapper_registration:
  "register_wrapper cols row m =
     m ++ map_of (rev (registration cols ''wrapper_id'' (wr_wrapper_id row) (wr_session_id row)))"
proof (cases "''session_id'' \<in> cols")
  case False
  then show ?thesis by (simp add: register_wrapper_def)
next
  case True
  show ?thesis
  proof (cases "wr_session_id row")
    case None
    then show ?thesis using True by (simp add: register_wrapper_def)
  next
    case (Some s)
    then show ?thesis using True
      by (simp add: register_wrapper_def register_registration)
  qed
qed

lemma register_agents_eq:
  "register_agents t m = m ++ last_writer_wins (agent_registrations t)"
  unfolding register_agents_def last_writer_wins_def agent_registrations_def
  by (rule fold_registrations) (rule register_agent_registration)

lemma register_clients_eq:
  "register_clients t m = m ++ last_writer_wins (client_registrations t)"
  unfolding register_clients_def last_writer_wins_def client_registrations_def
  by (rule fold_registrations) (rule register_client_registration)

lemma register_wrappers_eq:
  "register_wrappers t m = m ++ last_writer_wins (wrapper_registrations t)"
  unfolding register_wrappers_def last_writer_wins_def wrapper_registrations_def
  by (rule fold_registrations) (rule register_wrapper_registration)

lemma id_to_session_spec: "id_to_session t = identity_map_spec t"
  by (simp add: id_to_session_def identity_map_spec_def register_agents_eq register_clients_eq
        register_wrappers_eq last_writer_wins_def)

lemma last_writer_wins_single:
  assumes "(k, v) \<in> set regs" and "\<forall>v'. (k, v') \<in> set regs \<longrightarrow> v' = v"
  shows "last_writer_wins regs k = Some v"
proof -
  from assms(1) have "(k, v) \<in> set (rev regs)" by simp
  from weak_map_of_SomeI[OF this] obtain v' where v': "map_of (rev regs) k = Some v'" by blast
  from map_of_SomeD[OF v'] have "(k, v') \<in> set regs" by simp
  with assms(2) have "v' = v" by blast
  with v' show ?thesis by (simp add: last_writer_wins_def)
qed

text \<open>
  C3. The identity map is the map of the registrations of the agents, then the clients,
  then the wrappers, each non-null identifier of a row with a non-null session id being
  registered and the last registration of an identifier deciding
  (\<open>identity_map_spec\<close>). Hence an identifier that the agents table registers with session
  \<open>A\<close> and the wrappers table registers with session \<open>B\<close> is mapped to \<open>B\<close>. What a table
  registers for an identifier is what its own pass yields, the session of its last row for
  it; this is \<open>B\<close> in particular when a row of the wrappers table registers the identifier
  with \<open>B\<close> and none registers it with another session.
\<close>

theorem wrappers_override_agents:
  "id_to_session t = identity_map_spec t \<and>
   (register_agents (agents t) Map.empty X = Some A \<longrightarrow>
    register_wrappers (oai_wrappers t) Map.empty X = Some B \<longrightarrow>
    id_to_session t X = Some B) \<and>
   ((X, A) \<in> set (agent_registrations (agents t)) \<longrightarrow>
    (X, B) \<in> set (wrapper_registrations (oai_wrappers t)) \<longrightarrow>
    (\<forall>B'. (X, B') \<in> set (wrapper_registrations (oai_wrappers t)) \<longrightarrow> B' = B) \<longrightarrow>
    id_to_session t X = Some B)"
proof (intro conjI impI)
  show "id_to_session t = identity_map_spec t" by (rule id_to_session_spec)
next
  assume "register_wrappers (oai_wrappers t) Map.empty X = Some B"
  then have "last_writer_wins (wrapper_registrations (oai_wrappers t)) X = Some B"
    by (simp add: register_wrappers_eq)
  then show "id_to_session t X = Some B"
    unfolding id_to_session_def register_wrappers_eq[of "oai_wrappers t" "register_clients _ _"]
    by simp
next
  assume "(X, B) \<in> set (wrapper_registrations (oai_wrappers t))"
    and "\<forall>B'. (X, B') \<in> set (wrapper_registrations (oai_wrappers t)) \<longrightarrow> B' = B"
  then have "last_writer_wins (wrapper_registrations (oai_wrappers t)) X = Some B"
    by (rule last_writer_wins_single)
  then show "id_to_session t X = Some B"
    unfolding id_to_session_def register_wrappers_eq[of "oai_wrappers t" "register_clients _ _"]
    by simp
qed

theorem wrappers_override_agents_witness:
  "register_agents (agents demo_rebound) Map.empty (IdStr ''W1'') = Some (IdStr ''S1'') \<and>
   register_wrappers (oai_wrappers demo_rebound) Map.empty (IdStr ''W1'') = Some (IdStr ''S2'') \<and>
   (IdStr ''W1'', IdStr ''S1'') \<in> set (agent_registrations (agents demo_rebound)) \<and>
   wrapper_registrations (oai_wrappers demo_rebound) = [(IdStr ''W1'', IdStr ''S2'')] \<and>
   id_to_session demo_rebound (IdStr ''W1'') = Some (IdStr ''S2'')"
proof -
  have ar: "(IdStr ''W1'', IdStr ''S1'') \<in> set (agent_registrations (agents demo_rebound))"
    by (simp add: demo_rebound_def demo_def demo_raw_def agent_registrations_def
          registration_def agents_columns_def agent_ceo_def)
  have wr: "wrapper_registrations (oai_wrappers demo_rebound) = [(IdStr ''W1'', IdStr ''S2'')]"
    by (simp add: demo_rebound_def wrapper_registrations_def registration_def
          wrappers_columns_def wrapper_rebound_def wrapper_w1_def)
  have a: "register_agents (agents demo_rebound) Map.empty (IdStr ''W1'') = Some (IdStr ''S1'')"
    by (simp add: demo_rebound_def demo_def demo_raw_def register_agents_def register_agent_def
          register_def agents_columns_def agent_ceo_def)
  have w: "register_wrappers (oai_wrappers demo_rebound) Map.empty (IdStr ''W1'') =
             Some (IdStr ''S2'')"
    by (simp add: demo_rebound_def register_wrappers_def register_wrapper_def
          register_def wrappers_columns_def wrapper_rebound_def wrapper_w1_def)
  from wrappers_override_agents[of demo_rebound "IdStr ''W1''" "IdStr ''S1''" "IdStr ''S2''"] a w
  have "id_to_session demo_rebound (IdStr ''W1'') = Some (IdStr ''S2'')" by blast
  with a w ar wr show ?thesis by (intro conjI)
qed

section \<open>Properties of the timelines\<close>

lemma append_event_apply:
  "append_event e m s =
     (if session_id e = Some s then Some ((case m s of None \<Rightarrow> [] | Some old \<Rightarrow> old) @ [e])
      else m s)"
  by (cases "session_id e") (auto simp: append_event_def)

lemma fold_append_event:
  "fold append_event es m s =
     (if filter (\<lambda>e. session_id e = Some s) es = [] then m s
      else Some ((case m s of None \<Rightarrow> [] | Some old \<Rightarrow> old) @
                 filter (\<lambda>e. session_id e = Some s) es))"
proof (induction es arbitrary: m)
  case Nil
  then show ?case by simp
next
  case (Cons e es)
  have "fold append_event (e # es) m s = fold append_event es (append_event e m) s"
    by simp
  also have "\<dots> =
     (if filter (\<lambda>e. session_id e = Some s) es = [] then append_event e m s
      else Some ((case append_event e m s of None \<Rightarrow> [] | Some old \<Rightarrow> old) @
                 filter (\<lambda>e. session_id e = Some s) es))"
    by (rule Cons.IH)
  also have "\<dots> =
     (if filter (\<lambda>e. session_id e = Some s) (e # es) = [] then m s
      else Some ((case m s of None \<Rightarrow> [] | Some old \<Rightarrow> old) @
                 filter (\<lambda>e. session_id e = Some s) (e # es)))"
    by (simp add: append_event_apply)
  finally show ?case .
qed

lemma group_events_timeline:
  "group_events es s = (if timeline_of es s = [] then None else Some (timeline_of es s))"
  by (simp add: group_events_def fold_append_event timeline_of_def)

lemma group_events_Some:
  "group_events es s = Some tline \<Longrightarrow> tline = timeline_of es s"
  by (simp add: group_events_timeline split: if_splits)

lemma set_timeline_of:
  "set (timeline_of es s) = {e \<in> set es. timestamp e \<noteq> None \<and> session_id e = Some s}"
  by (auto simp: timeline_of_def)

lemma sorted_timeline_of: "sorted (map timestamp (timeline_of es s))"
  unfolding timeline_of_def by (intro sorted_filter sorted_sort_key)

lemma timeline_of_chronological:
  "sorted_wrt (\<lambda>a b. \<exists>x y. timestamp a = Some x \<and> timestamp b = Some y \<and> x \<le> y)
     (timeline_of es s)"
proof -
  have "sorted_wrt (\<lambda>a b. timestamp a \<le> timestamp b) (timeline_of es s)"
    using sorted_timeline_of[of es s] by (simp add: sorted_map)
  then show ?thesis
  proof (rule sorted_wrt_mono_rel[rotated])
    fix a b
    assume a: "a \<in> set (timeline_of es s)" and b: "b \<in> set (timeline_of es s)"
      and le: "timestamp a \<le> timestamp b"
    from a b obtain x y where "timestamp a = Some x" "timestamp b = Some y"
      by (auto simp: set_timeline_of)
    with le show "\<exists>x y. timestamp a = Some x \<and> timestamp b = Some y \<and> x \<le> y"
      by simp
  qed
qed

lemma build_Inr:
  "build_unified_session_view t = Inr m \<Longrightarrow> \<exists>es. unified_events t = Inr es \<and> m = group_events es"
  by (auto simp: build_unified_session_view_def split: sum.splits)


lemma demo_fields:
  "agents demo = \<lparr>columns = agents_columns, rows = [agent_ceo]\<rparr>"
  "chat_completions demo =
     \<lparr>columns = enriched_columns, rows = [cc_call_enriched, cc_untimed_enriched]\<rparr>"
  "events demo = \<lparr>columns = events_columns, rows = [message_failed]\<rparr>"
  "function_calls demo = \<lparr>columns = fc_columns, rows = [call_lookup, call_stray]\<rparr>"
  "oai_clients demo = \<lparr>columns = clients_columns, rows = [client_c1]\<rparr>"
  "oai_wrappers demo = \<lparr>columns = wrappers_columns, rows = [wrapper_w1]\<rparr>"
  by (simp_all add: demo_def demo_raw_def)

lemma demo_agent_events: "agent_events agents_columns agent_ceo = [ev_agent]"
  by (simp add: agent_events_def agents_columns_def agent_ceo_def ev_agent_def row_get_def)

lemma demo_event_events: "event_events events_columns message_failed = [ev_message]"
  by (simp add: event_events_def events_columns_def message_failed_def ev_message_def row_get_def)

lemma demo_client_events: "client_events clients_columns client_c1 = [ev_client]"
  by (simp add: client_events_def clients_columns_def client_c1_def ev_client_def row_get_def)

lemma demo_wrapper_events: "wrapper_events wrappers_columns wrapper_w1 = [ev_wrapper]"
  by (simp add: wrapper_events_def wrappers_columns_def wrapper_w1_def ev_wrapper_def row_get_def)

lemma demo_ids:
  "id_to_session demo (IdStr ''W1'') = Some (IdStr ''S1'')"
  "id_to_session demo (IdStr ''W9'') = None"
  by (simp_all add: id_to_session_def demo_fields register_agents_def register_clients_def
       register_wrappers_def register_agent_def register_client_def register_wrapper_def
       register_def agents_columns_def clients_columns_def wrappers_columns_def agent_ceo_def
       client_c1_def wrapper_w1_def)

lemma demo_lookup_events:
  "function_call_events (id_to_session demo) fc_columns call_lookup = [ev_lookup]"
  by (simp add: function_call_events_def fc_columns_def call_lookup_def ev_lookup_def
        row_get_def demo_ids)

lemma demo_stray_events:
  "function_call_events (id_to_session demo) fc_columns call_stray = []"
  by (simp add: function_call_events_def fc_columns_def call_lookup_def call_stray_def
        row_get_def demo_ids)

lemma demo_call_events: "llm_events enriched_columns cc_call_enriched = Inr [ev_start, ev_end]"
  by (simp add: llm_events_def llm_start_event_def llm_end_event_def ev_start_def ev_end_def
        enriched_columns_def cc_columns_def cc_call_enriched_def cc_call_def cc_blank_def
        row_get_def)

lemma demo_untimed_events:
  "llm_events enriched_columns cc_untimed_enriched =
     Inr [llm_start_event enriched_columns cc_untimed_enriched (JStr ''Unknown''),
          llm_end_event enriched_columns cc_untimed_enriched]"
  by (simp add: llm_events_def enriched_columns_def cc_columns_def cc_untimed_enriched_def
        cc_untimed_def cc_blank_def)

lemma demo_unified: "unified_events demo = Inr demo_events"
  unfolding unified_events_def demo_events_def
  by (simp add: demo_fields demo_agent_events demo_event_events demo_client_events
        demo_wrapper_events demo_lookup_events demo_stray_events demo_call_events
        demo_untimed_events)

lemma demo_timestamps:
  "timestamp ev_agent = Some 10" "timestamp ev_message = Some 25"
  "timestamp ev_start = Some 20" "timestamp ev_end = Some 30"
  "timestamp ev_lookup = Some 40" "timestamp ev_client = Some 5"
  "timestamp ev_wrapper = Some 1"
  "timestamp (llm_start_event cols cc_untimed_enriched model) = None"
  "timestamp (llm_end_event cols cc_untimed_enriched) = None"
  by (simp_all add: ev_agent_def ev_message_def ev_start_def ev_end_def ev_lookup_def
      ev_client_def ev_wrapper_def llm_start_event_def llm_end_event_def
      cc_untimed_enriched_def cc_untimed_def cc_blank_def)

lemma demo_sessions:
  "session_id ev_agent = Some (IdStr ''S1'')" "session_id ev_message = Some (IdStr ''S1'')"
  "session_id ev_start = Some (IdStr ''S1'')" "session_id ev_end = Some (IdStr ''S1'')"
  "session_id ev_lookup = Some (IdStr ''S1'')" "session_id ev_client = Some (IdStr ''S1'')"
  "session_id ev_wrapper = Some (IdStr ''S1'')"
  by (simp_all add: ev_agent_def ev_message_def ev_start_def ev_end_def ev_lookup_def
      ev_client_def ev_wrapper_def)

lemma demo_build: "build_unified_session_view demo = Inr (group_events demo_events)"
  by (simp add: build_unified_session_view_def demo_unified)

lemma demo_group: "group_events demo_events (IdStr ''S1'') = Some demo_timeline"
  by (simp add: demo_events_def demo_timeline_def group_events_def demo_timestamps
        append_event_def demo_sessions)

text \<open>
  C1. In the mapping returned by \<open>build_unified_session_view\<close>, every event of a session's
  timeline has a timestamp that is not null and the session id of that session, and the
  timeline is ordered by timestamp, non-decreasing.
\<close>

theorem timelines_valid_and_sorted:
  assumes "build_unified_session_view t = Inr m" and "m s = Some tline"
  shows "(\<forall>e \<in> set tline. timestamp e \<noteq> None \<and> session_id e = Some s) \<and>
         sorted_wrt (\<lambda>a b. \<exists>x y. timestamp a = Some x \<and> timestamp b = Some y \<and> x \<le> y) tline"
proof -
  from build_Inr[OF assms(1)] obtain es where m: "m = group_events es" by blast
  with assms(2) have tline: "tline = timeline_of es s" by (simp add: group_events_Some)
  show ?thesis unfolding tline using timeline_of_chronological[of es s]
    by (simp add: set_timeline_of)
qed

theorem timelines_valid_and_sorted_witness:
  "build_unified_session_view demo = Inr (group_events demo_events) \<and>
   group_events demo_events (IdStr ''S1'') = Some demo_timeline \<and>
   list_all (\<lambda>e. timestamp e \<noteq> None \<and> session_id e = Some (IdStr ''S1'')) demo_timeline \<and>
   sorted_wrt (\<lambda>a b. \<exists>x y. timestamp a = Some x \<and> timestamp b = Some y \<and> x \<le> y)
     demo_timeline"
  using timelines_valid_and_sorted[OF demo_build demo_group] demo_build demo_group
  unfolding list_all_iff by blast

lemma apply_rows_concat:
  "apply_rows f xs = Inr ys \<Longrightarrow>
   (\<forall>x \<in> set xs. \<exists>y. f x = Inr y \<and> set y \<subseteq> set (concat ys)) \<and>
   (\<forall>e \<in> set (concat ys). \<exists>x \<in> set xs. \<exists>y. f x = Inr y \<and> e \<in> set y)"
proof (induction xs arbitrary: ys)
  case Nil
  then show ?case by simp
next
  case (Cons x xs)
  then obtain y ys' where fx: "f x = Inr y" and rest: "apply_rows f xs = Inr ys'"
    and ys: "ys = y # ys'"
    by (auto split: sum.splits)
  from Cons.IH[OF rest] have
    ih1: "\<forall>x \<in> set xs. \<exists>y. f x = Inr y \<and> set y \<subseteq> set (concat ys')" and
    ih2: "\<forall>e \<in> set (concat ys'). \<exists>x \<in> set xs. \<exists>y. f x = Inr y \<and> e \<in> set y"
    by simp_all
  show ?case
  proof (intro conjI ballI)
    fix x' assume "x' \<in> set (x # xs)"
    then consider "x' = x" | "x' \<in> set xs" by auto
    then show "\<exists>y. f x' = Inr y \<and> set y \<subseteq> set (concat ys)"
    proof cases
      case 1
      then show ?thesis using fx ys by auto
    next
      case 2
      with ih1 obtain y' where "f x' = Inr y'" "set y' \<subseteq> set (concat ys')" by blast
      then show ?thesis using ys by auto
    qed
  next
    fix e assume "e \<in> set (concat ys)"
    then have "e \<in> set y \<or> e \<in> set (concat ys')" using ys by auto
    then show "\<exists>x' \<in> set (x # xs). \<exists>y. f x' = Inr y \<and> e \<in> set y"
      using fx ih2 by auto
  qed
qed

lemma unified_events_Inr:
  assumes "unified_events t = Inr es"
  shows "\<exists>llm. apply_rows (llm_events (columns (chat_completions t))) (rows (chat_completions t)) = Inr llm \<and>
     es = concat (map (agent_events (columns (agents t))) (rows (agents t))) @
          concat (map (event_events (columns (events t))) (rows (events t))) @
          concat llm @
          concat (map (function_call_events (id_to_session t) (columns (function_calls t)))
                    (rows (function_calls t))) @
          concat (map (client_events (columns (oai_clients t))) (rows (oai_clients t))) @
          concat (map (wrapper_events (columns (oai_wrappers t))) (rows (oai_wrappers t)))"
  using assms by (auto simp: unified_events_def split: sum.splits)

lemma etype_agent_events: "e \<in> set (agent_events cols r) \<Longrightarrow> etype e = agent_config"
  by (auto simp: agent_events_def etype_def split: if_splits)

lemma etype_event_events:
  "e \<in> set (event_events cols r) \<Longrightarrow> etype e = event_received_message \<or> etype e = event_other"
  by (auto simp: event_events_def etype_def split: if_splits)

lemma etype_function_call_events:
  "e \<in> set (function_call_events ids cols r) \<Longrightarrow> etype e = function_call"
  by (auto simp: function_call_events_def etype_def Let_def split: if_splits option.splits)

lemma etype_client_events: "e \<in> set (client_events cols r) \<Longrightarrow> etype e = client_config"
  by (auto simp: client_events_def etype_def split: if_splits)

lemma etype_wrapper_events: "e \<in> set (wrapper_events cols r) \<Longrightarrow> etype e = wrapper_config"
  by (auto simp: wrapper_events_def etype_def split: if_splits)

lemma etype_llm_start_event [simp]: "etype (llm_start_event cols r model) = llm_call_start"
  by (simp add: llm_start_event_def etype_def)

lemma etype_llm_end_event [simp]: "etype (llm_end_event cols r) = llm_call_end"
  by (simp add: llm_end_event_def etype_def)

lemma llm_events_Inr:
  "llm_events cols r = Inr y \<Longrightarrow>
   y = [] \<or> (\<exists>model. dict_get (cc_request_dict r) ''model'' (JStr ''Unknown'') = Inr model \<and>
                y = [llm_start_event cols r model, llm_end_event cols r])"
  by (auto simp: llm_events_def split: if_splits sum.splits)

lemma llm_start_origin:
  assumes es: "unified_events t = Inr es" and e: "e \<in> set es" and ty: "etype e = llm_call_start"
  shows "\<exists>r \<in> set (rows (chat_completions t)). \<exists>model.
           e = llm_start_event (columns (chat_completions t)) r model \<and>
           llm_end_event (columns (chat_completions t)) r \<in> set es"
proof -
  let ?cols = "columns (chat_completions t)"
  from unified_events_Inr[OF es] obtain llm where
    llm: "apply_rows (llm_events ?cols) (rows (chat_completions t)) = Inr llm" and
    parts: "es = concat (map (agent_events (columns (agents t))) (rows (agents t))) @
          concat (map (event_events (columns (events t))) (rows (events t))) @
          concat llm @
          concat (map (function_call_events (id_to_session t) (columns (function_calls t)))
                    (rows (function_calls t))) @
          concat (map (client_events (columns (oai_clients t))) (rows (oai_clients t))) @
          concat (map (wrapper_events (columns (oai_wrappers t))) (rows (oai_wrappers t)))"
    by blast
  have sub: "set (concat llm) \<subseteq> set es" unfolding parts by auto
  have "e \<in> set (concat llm)"
  proof (rule ccontr)
    assume "e \<notin> set (concat llm)"
    with e parts have
      "(\<exists>r. e \<in> set (agent_events (columns (agents t)) r)) \<or>
       (\<exists>r. e \<in> set (event_events (columns (events t)) r)) \<or>
       (\<exists>r. e \<in> set (function_call_events (id_to_session t) (columns (function_calls t)) r)) \<or>
       (\<exists>r. e \<in> set (client_events (columns (oai_clients t)) r)) \<or>
       (\<exists>r. e \<in> set (wrapper_events (columns (oai_wrappers t)) r))"
      by auto
    then show False
      using ty etype_agent_events etype_event_events etype_function_call_events
        etype_client_events etype_wrapper_events
      by fastforce
  qed
  with apply_rows_concat[OF llm] obtain r y where
    r: "r \<in> set (rows (chat_completions t))" and y: "llm_events ?cols r = Inr y" and ey: "e \<in> set y"
    by blast
  from apply_rows_concat[OF llm] r y have ysub: "set y \<subseteq> set (concat llm)" by fastforce
  from llm_events_Inr[OF y] ey obtain model where
    yeq: "y = [llm_start_event ?cols r model, llm_end_event ?cols r]"
    by auto
  from ey yeq ty have "e = llm_start_event ?cols r model" by auto
  moreover have "llm_end_event ?cols r \<in> set es" using yeq ysub sub by auto
  ultimately show ?thesis using r by blast
qed


lemma id_to_session_chats [simp]:
  "id_to_session (t\<lparr>chat_completions := cc\<rparr>) = id_to_session t"
  by (simp add: id_to_session_def)

lemma demo_with_chats:
  "unified_events (demo\<lparr>chat_completions := \<lparr>columns = cols, rows = rs\<rparr>\<rparr>) =
     (case apply_rows (llm_events cols) rs of
        Inl e \<Rightarrow> Inl e
      | Inr llm \<Rightarrow> Inr ([ev_agent, ev_message] @ concat llm @ [ev_lookup, ev_client, ev_wrapper]))"
  unfolding unified_events_def
  by (cases "apply_rows (llm_events cols) rs")
     (simp_all add: demo_fields demo_agent_events demo_event_events demo_client_events
        demo_wrapper_events demo_lookup_events demo_stray_events)

lemma demo_unfinished_events:
  "llm_events enriched_columns cc_unfinished =
     Inr [ev_start, llm_end_event enriched_columns cc_unfinished]"
  by (simp add: llm_events_def llm_start_event_def ev_start_def
        enriched_columns_def cc_columns_def cc_unfinished_def cc_call_enriched_def cc_call_def
        cc_blank_def row_get_def)

lemma demo_unfinished_end:
  "timestamp (llm_end_event enriched_columns cc_unfinished) = None"
  by (simp add: llm_end_event_def cc_unfinished_def)

lemma demo_backwards_events:
  "llm_events enriched_columns cc_backwards = Inr [ev_start, ev_end_early]"
  by (simp add: llm_events_def llm_start_event_def llm_end_event_def ev_start_def ev_end_def
        ev_end_early_def enriched_columns_def cc_columns_def cc_backwards_def
        cc_call_enriched_def cc_call_def cc_blank_def row_get_def)

lemma demo_backwards_end:
  "timestamp ev_end_early = Some 15" "session_id ev_end_early = Some (IdStr ''S1'')"
  by (simp_all add: ev_end_early_def ev_end_def)

text \<open>
  C2 as stated fails: the events of a chat completion are filtered one by one, so a call
  whose \<open>end_time\<close> is NULL leaves its \<open>llm_call_start\<close> in the timeline without an
  \<open>llm_call_end\<close>, and the timestamps are the row's \<open>start_time\<close> and \<open>end_time\<close> as they
  are, here an end at 15 before the start at 20.
\<close>

theorem llm_start_without_end_counterexample:
  "session_timeline demo_unfinished (IdStr ''S1'') =
     Inr (Some [ev_wrapper, ev_client, ev_agent, ev_start, ev_message, ev_lookup]) \<and>
   etype ev_start = llm_call_start \<and>
   llm_call_end \<notin> set (map etype [ev_wrapper, ev_client, ev_agent, ev_start, ev_message, ev_lookup]) \<and>
   session_timeline demo_backwards (IdStr ''S1'') =
     Inr (Some [ev_wrapper, ev_client, ev_agent, ev_end_early, ev_start, ev_message, ev_lookup]) \<and>
   etype ev_end_early = llm_call_end \<and>
   invocation_id ev_end_early = invocation_id ev_start \<and>
   timestamp ev_end_early = Some 15 \<and> timestamp ev_start = Some 20"
proof -
  have "session_timeline demo_unfinished (IdStr ''S1'') =
     Inr (Some [ev_wrapper, ev_client, ev_agent, ev_start, ev_message, ev_lookup])"
    by (simp add: session_timeline_def build_unified_session_view_def demo_unfinished_def
          demo_with_chats demo_unfinished_events group_events_def demo_timestamps
          demo_unfinished_end append_event_def demo_sessions)
  moreover have "session_timeline demo_backwards (IdStr ''S1'') =
     Inr (Some [ev_wrapper, ev_client, ev_agent, ev_end_early, ev_start, ev_message, ev_lookup])"
    by (simp add: session_timeline_def build_unified_session_view_def demo_backwards_def
          demo_with_chats demo_backwards_events group_events_def demo_timestamps
          demo_backwards_end append_event_def demo_sessions)
  moreover have "etype ev_start = llm_call_start" "etype ev_end_early = llm_call_end"
    "invocation_id ev_end_early = invocation_id ev_start"
    "llm_call_end \<notin> set (map etype [ev_wrapper, ev_client, ev_agent, ev_start, ev_message, ev_lookup])"
    by (simp_all add: etype_def ev_start_def ev_end_early_def ev_end_def ev_wrapper_def
          ev_client_def ev_agent_def ev_message_def ev_lookup_def)
  ultimately show ?thesis using demo_timestamps(3) demo_backwards_end(1) by blast
qed

text \<open>
  C2, amended. Every \<open>llm_call_start\<close> event of a timeline is the start event of a
  chat-completion row and carries the row's \<open>start_time\<close>; when that row's \<open>end_time\<close> is
  not NULL, the same timeline holds the row's \<open>llm_call_end\<close> event, with the same
  \<open>invocation_id\<close> and the row's \<open>end_time\<close> as timestamp. The end is not before the start
  exactly when the row's \<open>end_time\<close> is not before its \<open>start_time\<close>.
\<close>

theorem llm_start_has_end_when_timed:
  assumes "build_unified_session_view t = Inr m" and "m s = Some tline"
    and "e \<in> set tline" and "etype e = llm_call_start"
  shows "\<exists>row \<in> set (rows (chat_completions t)). \<exists>model.
           e = llm_start_event (columns (chat_completions t)) row model \<and>
           timestamp e = cc_start_time row \<and>
           (cc_end_time row \<noteq> None \<longrightarrow>
              llm_end_event (columns (chat_completions t)) row \<in> set tline \<and>
              etype (llm_end_event (columns (chat_completions t)) row) = llm_call_end \<and>
              invocation_id (llm_end_event (columns (chat_completions t)) row) = invocation_id e \<and>
              timestamp (llm_end_event (columns (chat_completions t)) row) = cc_end_time row)"
proof -
  let ?cols = "columns (chat_completions t)"
  from build_Inr[OF assms(1)] obtain es where
    es: "unified_events t = Inr es" and m: "m = group_events es"
    by blast
  from assms(2) m have tl: "tline = timeline_of es s" by (simp add: group_events_Some)
  from assms(3) have e: "e \<in> set es" and se: "session_id e = Some s"
    unfolding tl by (simp_all add: set_timeline_of)
  from llm_start_origin[OF es e assms(4)] obtain r model where
    r: "r \<in> set (rows (chat_completions t))" and
    eq: "e = llm_start_event ?cols r model" and
    en: "llm_end_event ?cols r \<in> set es"
    by blast
  have sess: "session_id (llm_end_event ?cols r) = Some s"
    using se eq by (simp add: llm_start_event_def llm_end_event_def)
  have "cc_end_time r \<noteq> None \<longrightarrow> llm_end_event ?cols r \<in> set tline"
    unfolding tl using en sess by (simp add: set_timeline_of llm_end_event_def)
  moreover have "invocation_id (llm_end_event ?cols r) = invocation_id e"
    "timestamp (llm_end_event ?cols r) = cc_end_time r" "timestamp e = cc_start_time r"
    unfolding eq by (simp_all add: llm_start_event_def llm_end_event_def)
  ultimately show ?thesis using r eq by auto
qed

theorem llm_start_has_end_when_timed_witness:
  "build_unified_session_view demo = Inr (group_events demo_events) \<and>
   group_events demo_events (IdStr ''S1'') = Some demo_timeline \<and>
   ev_start \<in> set demo_timeline \<and> etype ev_start = llm_call_start \<and>
   (\<exists>row \<in> set (rows (chat_completions demo)). \<exists>model.
      ev_start = llm_start_event (columns (chat_completions demo)) row model \<and>
      timestamp ev_start = cc_start_time row \<and>
      (cc_end_time row \<noteq> None \<longrightarrow>
         llm_end_event (columns (chat_completions demo)) row \<in> set demo_timeline \<and>
         etype (llm_end_event (columns (chat_completions demo)) row) = llm_call_end \<and>
         invocation_id (llm_end_event (columns (chat_completions demo)) row) =
           invocation_id ev_start \<and>
         timestamp (llm_end_event (columns (chat_completions demo)) row) = cc_end_time row))"
proof -
  have mem: "ev_start \<in> set demo_timeline" by (simp add: demo_timeline_def)
  have ty: "etype ev_start = llm_call_start" by (simp add: etype_def ev_start_def)
  from llm_start_has_end_when_timed[OF demo_build demo_group mem ty] demo_build demo_group mem ty
  show ?thesis by blast
qed

lemma function_call_events_unresolved:
  "fc_source_id row = None \<or> (\<exists>k. fc_source_id row = Some k \<and> ids k = None) \<Longrightarrow>
   function_call_events ids cols row = []"
  by (auto simp: function_call_events_def row_get_def Let_def)

lemma function_call_events_session:
  "e \<in> set (function_call_events ids cols row) \<Longrightarrow>
   \<exists>k. fc_source_id row = Some k \<and> ids k = session_id e"
  by (auto simp: function_call_events_def row_get_def Let_def split: option.splits if_splits)

lemma function_call_events_own_session:
  "function_call_events ids cols (row\<lparr>fc_session_id := x\<rparr>) = function_call_events ids cols row"
  by (simp add: function_call_events_def Let_def split: option.splits)

lemma function_call_events_session_column:
  "function_call_events ids (insert ''session_id'' cols) row = function_call_events ids cols row"
  by (simp add: function_call_events_def row_get_def Let_def split: option.splits)

lemma id_to_session_calls [simp]:
  "id_to_session (t\<lparr>function_calls := fc\<rparr>) = id_to_session t"
  by (simp add: id_to_session_def)

lemma unified_events_without_call:
  assumes none: "function_call_events (id_to_session t) (columns (function_calls t)) row = []"
    and split: "rows (function_calls t) = xs @ row # ys"
  shows "unified_events (t\<lparr>function_calls := (function_calls t)\<lparr>rows := xs @ ys\<rparr>\<rparr>) =
         unified_events t"
proof (cases "apply_rows (llm_events (columns (chat_completions t))) (rows (chat_completions t))")
  case (Inl e)
  then show ?thesis by (simp add: unified_events_def)
next
  case (Inr llm)
  then show ?thesis using none by (simp add: unified_events_def split)
qed

text \<open>
  C7. The events of a function-call row do not depend on the row's own \<open>session_id\<close> cell
  nor on the table having such a column; the session of the event, if one is produced,
  is what the identity map holds for the row's source id. A row whose source id is null or
  not in the map produces no event, and removing it from the table changes neither the
  mapping that \<open>build_unified_session_view\<close> returns nor the metrics of any session.
\<close>

theorem function_call_session_from_identity_map:
  "function_call_events ids cols (row\<lparr>fc_session_id := x\<rparr>) = function_call_events ids cols row \<and>
   function_call_events ids (insert ''session_id'' cols) row = function_call_events ids cols row \<and>
   (\<forall>e \<in> set (function_call_events ids cols row).
      \<exists>k. fc_source_id row = Some k \<and> ids k = session_id e) \<and>
   ((fc_source_id row = None \<or> (\<exists>k. fc_source_id row = Some k \<and> ids k = None)) \<longrightarrow>
      function_call_events ids cols row = []) \<and>
   ((fc_source_id row = None \<or> (\<exists>k. fc_source_id row = Some k \<and> id_to_session t k = None)) \<longrightarrow>
    rows (function_calls t) = xs @ row # ys \<longrightarrow>
      build_unified_session_view (t\<lparr>function_calls := (function_calls t)\<lparr>rows := xs @ ys\<rparr>\<rparr>) =
        build_unified_session_view t \<and>
      session_metrics_of py_str float_sum (t\<lparr>function_calls := (function_calls t)\<lparr>rows := xs @ ys\<rparr>\<rparr>) s =
        session_metrics_of py_str float_sum t s)"
proof (intro conjI impI ballI)
  show "function_call_events ids cols (row\<lparr>fc_session_id := x\<rparr>) = function_call_events ids cols row"
    by (rule function_call_events_own_session)
  show "function_call_events ids (insert ''session_id'' cols) row = function_call_events ids cols row"
    by (rule function_call_events_session_column)
next
  fix e assume "e \<in> set (function_call_events ids cols row)"
  then show "\<exists>k. fc_source_id row = Some k \<and> ids k = session_id e"
    by (rule function_call_events_session)
next
  assume "fc_source_id row = None \<or> (\<exists>k. fc_source_id row = Some k \<and> ids k = None)"
  then show "function_call_events ids cols row = []"
    by (rule function_call_events_unresolved)
next
  assume un: "fc_source_id row = None \<or> (\<exists>k. fc_source_id row = Some k \<and> id_to_session t k = None)"
    and split: "rows (function_calls t) = xs @ row # ys"
  have u: "unified_events (t\<lparr>function_calls := (function_calls t)\<lparr>rows := xs @ ys\<rparr>\<rparr>) =
         unified_events t"
    using unified_events_without_call[OF function_call_events_unresolved[OF un] split] .
  show b: "build_unified_session_view (t\<lparr>function_calls := (function_calls t)\<lparr>rows := xs @ ys\<rparr>\<rparr>) =
        build_unified_session_view t"
    by (simp add: build_unified_session_view_def u)
  show "session_metrics_of py_str float_sum (t\<lparr>function_calls := (function_calls t)\<lparr>rows := xs @ ys\<rparr>\<rparr>) s =
        session_metrics_of py_str float_sum t s"
  proof -
    have cc: "chat_completions (t\<lparr>function_calls := (function_calls t)\<lparr>rows := xs @ ys\<rparr>\<rparr>) =
              chat_completions t"
      by simp
    show ?thesis unfolding session_metrics_of_def b cc ..
  qed
qed

theorem function_call_session_from_identity_map_witness:
  "fc_source_id call_stray = Some (IdStr ''W9'') \<and> id_to_session demo (IdStr ''W9'') = None \<and>
   rows (function_calls demo) = [call_lookup] @ call_stray # [] \<and>
   function_call_events (id_to_session demo) fc_columns call_stray = [] \<and>
   build_unified_session_view (demo\<lparr>function_calls := (function_calls demo)\<lparr>rows := [call_lookup] @ []\<rparr>\<rparr>) =
     build_unified_session_view demo \<and>
   (\<forall>float_sum.
      session_metrics_of str_plain float_sum
          (demo\<lparr>function_calls := (function_calls demo)\<lparr>rows := [call_lookup] @ []\<rparr>\<rparr>)
          (IdStr ''S1'') =
        session_metrics_of str_plain float_sum demo (IdStr ''S1'')) \<and>
   list_all (\<lambda>e. \<exists>k. fc_source_id call_lookup = Some k \<and> id_to_session demo k = session_id e)
     (function_call_events (id_to_session demo) fc_columns call_lookup) \<and>
   function_call_events (id_to_session demo) fc_columns call_lookup = [ev_lookup]"
proof -
  have src: "fc_source_id call_stray = Some (IdStr ''W9'')"
    by (simp add: call_stray_def)
  have split: "rows (function_calls demo) = [call_lookup] @ call_stray # []"
    by (simp add: demo_fields)
  have un: "fc_source_id call_stray = None \<or>
            (\<exists>k. fc_source_id call_stray = Some k \<and> id_to_session demo k = None)"
    using src demo_ids(2) by simp
  have a: "function_call_events (id_to_session demo) fc_columns call_stray = [] \<and>
   build_unified_session_view (demo\<lparr>function_calls := (function_calls demo)\<lparr>rows := [call_lookup] @ []\<rparr>\<rparr>) =
     build_unified_session_view demo \<and>
   session_metrics_of str_plain float_sum
       (demo\<lparr>function_calls := (function_calls demo)\<lparr>rows := [call_lookup] @ []\<rparr>\<rparr>)
       (IdStr ''S1'') =
     session_metrics_of str_plain float_sum demo (IdStr ''S1'')" for float_sum
    using function_call_session_from_identity_map
         [where ids = "id_to_session demo" and cols = fc_columns and row = call_stray
            and t = demo and xs = "[call_lookup]" and ys = "[]" and py_str = str_plain
            and float_sum = float_sum and s = "IdStr ''S1''"]
       un split
    by blast
  from function_call_session_from_identity_map
         [where ids = "id_to_session demo" and cols = fc_columns and row = call_lookup]
  have b: "\<forall>e \<in> set (function_call_events (id_to_session demo) fc_columns call_lookup).
      \<exists>k. fc_source_id call_lookup = Some k \<and> id_to_session demo k = session_id e"
    by blast
  from b have c: "list_all (\<lambda>e. \<exists>k. fc_source_id call_lookup = Some k \<and>
                                  id_to_session demo k = session_id e)
     (function_call_events (id_to_session demo) fc_columns call_lookup)"
    unfolding list_all_iff .
  from src demo_ids(2) split a c demo_lookup_events show ?thesis by (intro conjI allI) simp_all
qed

lemma apply_rows_ok:
  "(\<forall>x \<in> set xs. \<exists>y. f x = Inr y) \<Longrightarrow> \<exists>ys. apply_rows f xs = Inr ys"
proof (induction xs)
  case Nil
  then show ?case by simp
next
  case (Cons x xs)
  then obtain y ys where "f x = Inr y" "apply_rows f xs = Inr ys" by auto
  then show ?case by simp
qed

lemma llm_events_ok:
  "cc_request_dict r = JObj kvs \<Longrightarrow> ''end_time'' \<in> cols \<Longrightarrow> \<exists>y. llm_events cols r = Inr y"
  by (simp add: llm_events_def)

lemma build_returns:
  assumes "\<forall>r \<in> set (rows (chat_completions t)). \<exists>kvs. cc_request_dict r = JObj kvs"
    and "''end_time'' \<in> columns (chat_completions t)"
  shows "\<exists>m. build_unified_session_view t = Inr m"
proof -
  have "\<forall>r \<in> set (rows (chat_completions t)).
          \<exists>y. llm_events (columns (chat_completions t)) r = Inr y"
    using assms llm_events_ok by blast
  from apply_rows_ok[OF this] obtain llm where
    "apply_rows (llm_events (columns (chat_completions t))) (rows (chat_completions t)) = Inr llm"
    by blast
  then show ?thesis
    by (simp add: build_unified_session_view_def unified_events_def)
qed

lemma agent_events_fields:
  "e \<in> set (agent_events cols r) \<Longrightarrow>
   ''timestamp'' \<in> cols \<and> ''session_id'' \<in> cols \<and>
   timestamp e = ag_timestamp r \<and> session_id e = ag_session_id r"
  by (auto simp: agent_events_def split: if_splits)

lemma event_events_fields:
  "e \<in> set (event_events cols r) \<Longrightarrow>
   ''timestamp'' \<in> cols \<and> ''session_id'' \<in> cols \<and>
   timestamp e = ev_timestamp r \<and> session_id e = ev_session_id r"
  by (auto simp: event_events_def split: if_splits)

lemma client_events_fields:
  "e \<in> set (client_events cols r) \<Longrightarrow>
   ''timestamp'' \<in> cols \<and> ''session_id'' \<in> cols \<and>
   timestamp e = cl_timestamp r \<and> session_id e = cl_session_id r"
  by (auto simp: client_events_def split: if_splits)

lemma wrapper_events_fields:
  "e \<in> set (wrapper_events cols r) \<Longrightarrow>
   ''timestamp'' \<in> cols \<and> ''session_id'' \<in> cols \<and>
   timestamp e = wr_timestamp r \<and> session_id e = wr_session_id r"
  by (auto simp: wrapper_events_def split: if_splits)

lemma function_call_events_fields:
  assumes "e \<in> set (function_call_events ids cols r)"
  shows "timestamp e = fc_timestamp r \<and>
         (\<exists>k. fc_source_id r = Some k \<and> ids k = session_id e)"
proof -
  have "timestamp e = fc_timestamp r"
    using assms
    by (auto simp: function_call_events_def row_get_def Let_def split: option.splits if_splits)
  then show ?thesis using function_call_events_session[OF assms] by simp
qed

lemma llm_events_fields:
  "llm_events cols r = Inr es \<Longrightarrow> e \<in> set es \<Longrightarrow>
   session_id e = cc_session_id r \<and>
   (etype e = llm_call_start \<longrightarrow> timestamp e = cc_start_time r) \<and>
   (etype e = llm_call_end \<longrightarrow> timestamp e = cc_end_time r)"
  by (auto simp: llm_events_def llm_start_event_def llm_end_event_def etype_def
           split: if_splits sum.splits)

lemma timeline_member:
  assumes "build_unified_session_view t = Inr m" and "m s = Some tline" and "e \<in> set tline"
  shows "timestamp e \<noteq> None \<and> session_id e = Some s"
proof -
  from build_Inr[OF assms(1)] obtain es where "m = group_events es" by blast
  with assms(2) have "tline = timeline_of es s" by (simp add: group_events_Some)
  with assms(3) show ?thesis by (simp add: set_timeline_of)
qed

lemma demo_unstarted_events:
  "llm_events enriched_columns cc_unstarted =
     Inr [llm_start_event enriched_columns cc_unstarted (JStr ''gpt-4''), ev_end]"
  by (simp add: llm_events_def llm_end_event_def ev_end_def
        enriched_columns_def cc_columns_def cc_unstarted_def cc_call_enriched_def cc_call_def
        cc_blank_def row_get_def)

lemma demo_unstarted_start:
  "timestamp (llm_start_event enriched_columns cc_unstarted (JStr ''gpt-4'')) = None"
  by (simp add: llm_start_event_def cc_unstarted_def)

text \<open>
  C8 as stated fails for a chat completion: the row's two events are appended together
  and dropped one by one, so a row whose \<open>start_time\<close> is NULL still puts its
  \<open>llm_call_end\<close> event in the timeline of its session.
\<close>

theorem chat_row_without_start_counterexample:
  "cc_start_time cc_unstarted = None \<and>
   llm_events enriched_columns cc_unstarted =
     Inr [llm_start_event enriched_columns cc_unstarted (JStr ''gpt-4''), ev_end] \<and>
   etype ev_end = llm_call_end \<and>
   session_timeline demo_unstarted (IdStr ''S1'') =
     Inr (Some [ev_wrapper, ev_client, ev_agent, ev_message, ev_end, ev_lookup])"
proof -
  have "session_timeline demo_unstarted (IdStr ''S1'') =
     Inr (Some [ev_wrapper, ev_client, ev_agent, ev_message, ev_end, ev_lookup])"
    by (simp add: session_timeline_def build_unified_session_view_def demo_unstarted_def
          demo_with_chats demo_unstarted_events group_events_def demo_timestamps
          demo_unstarted_start append_event_def demo_sessions)
  moreover have "cc_start_time cc_unstarted = None" "etype ev_end = llm_call_end"
    by (simp_all add: cc_unstarted_def etype_def ev_end_def)
  ultimately show ?thesis using demo_unstarted_events by blast
qed

text \<open>
  C8, amended. In the agents, events, clients and wrappers tables a record whose
  timestamp or session id is null (or whose table lacks one of the two columns) has its
  event in no timeline, and so has a function call whose timestamp or source id is null or
  whose source id is not in the identity map. A chat-completion record is skipped event
  by event: both events when its session id is null, the \<open>llm_call_start\<close> when its
  \<open>start_time\<close> is null, the \<open>llm_call_end\<close> when its \<open>end_time\<close> is null. No missing
  field raises: the normalization returns a mapping whenever the parsed request of every
  chat completion is an object and the table has its \<open>end_time\<close> column. The rows \<open>r\<close>
  range over all rows, those of the table among them.
\<close>

theorem missing_fields_are_skipped:
  "((\<forall>r \<in> set (rows (chat_completions t)). \<exists>kvs. cc_request_dict r = JObj kvs) \<longrightarrow>
    ''end_time'' \<in> columns (chat_completions t) \<longrightarrow>
    (\<exists>m. build_unified_session_view t = Inr m)) \<and>
   (build_unified_session_view t = Inr m \<longrightarrow> m s = Some tline \<longrightarrow>
     (\<forall>r. ''timestamp'' \<notin> columns (agents t) \<or> ''session_id'' \<notin> columns (agents t) \<or>
          ag_timestamp r = None \<or> ag_session_id r = None \<longrightarrow>
          (\<forall>e \<in> set (agent_events (columns (agents t)) r). e \<notin> set tline)) \<and>
     (\<forall>r. ''timestamp'' \<notin> columns (events t) \<or> ''session_id'' \<notin> columns (events t) \<or>
          ev_timestamp r = None \<or> ev_session_id r = None \<longrightarrow>
          (\<forall>e \<in> set (event_events (columns (events t)) r). e \<notin> set tline)) \<and>
     (\<forall>r. ''timestamp'' \<notin> columns (oai_clients t) \<or> ''session_id'' \<notin> columns (oai_clients t) \<or>
          cl_timestamp r = None \<or> cl_session_id r = None \<longrightarrow>
          (\<forall>e \<in> set (client_events (columns (oai_clients t)) r). e \<notin> set tline)) \<and>
     (\<forall>r. ''timestamp'' \<notin> columns (oai_wrappers t) \<or> ''session_id'' \<notin> columns (oai_wrappers t) \<or>
          wr_timestamp r = None \<or> wr_session_id r = None \<longrightarrow>
          (\<forall>e \<in> set (wrapper_events (columns (oai_wrappers t)) r). e \<notin> set tline)) \<and>
     (\<forall>r. fc_timestamp r = None \<or> fc_source_id r = None \<or>
          (\<exists>k. fc_source_id r = Some k \<and> id_to_session t k = None) \<longrightarrow>
          (\<forall>e \<in> set (function_call_events (id_to_session t) (columns (function_calls t)) r).
             e \<notin> set tline)) \<and>
     (\<forall>r es. llm_events (columns (chat_completions t)) r = Inr es \<longrightarrow>
          (cc_session_id r = None \<longrightarrow> (\<forall>e \<in> set es. e \<notin> set tline)) \<and>
          (cc_start_time r = None \<longrightarrow>
             (\<forall>e \<in> set es. etype e = llm_call_start \<longrightarrow> e \<notin> set tline)) \<and>
          (cc_end_time r = None \<longrightarrow>
             (\<forall>e \<in> set es. etype e = llm_call_end \<longrightarrow> e \<notin> set tline))))"
proof (intro conjI impI)
  assume "\<forall>r \<in> set (rows (chat_completions t)). \<exists>kvs. cc_request_dict r = JObj kvs"
    and "''end_time'' \<in> columns (chat_completions t)"
  then show "\<exists>m. build_unified_session_view t = Inr m" by (rule build_returns)
next
  assume b: "build_unified_session_view t = Inr m" and s: "m s = Some tline"
  note mem = timeline_member[OF b s]
  show "\<forall>r. ''timestamp'' \<notin> columns (agents t) \<or> ''session_id'' \<notin> columns (agents t) \<or>
          ag_timestamp r = None \<or> ag_session_id r = None \<longrightarrow>
          (\<forall>e \<in> set (agent_events (columns (agents t)) r). e \<notin> set tline)"
    using mem agent_events_fields by fastforce
  show "\<forall>r. ''timestamp'' \<notin> columns (events t) \<or> ''session_id'' \<notin> columns (events t) \<or>
          ev_timestamp r = None \<or> ev_session_id r = None \<longrightarrow>
          (\<forall>e \<in> set (event_events (columns (events t)) r). e \<notin> set tline)"
    using mem event_events_fields by fastforce
  show "\<forall>r. ''timestamp'' \<notin> columns (oai_clients t) \<or> ''session_id'' \<notin> columns (oai_clients t) \<or>
          cl_timestamp r = None \<or> cl_session_id r = None \<longrightarrow>
          (\<forall>e \<in> set (client_events (columns (oai_clients t)) r). e \<notin> set tline)"
    using mem client_events_fields by fastforce
  show "\<forall>r. ''timestamp'' \<notin> columns (oai_wrappers t) \<or> ''session_id'' \<notin> columns (oai_wrappers t) \<or>
          wr_timestamp r = None \<or> wr_session_id r = None \<longrightarrow>
          (\<forall>e \<in> set (wrapper_events (columns (oai_wrappers t)) r). e \<notin> set tline)"
    using mem wrapper_events_fields by fastforce
  show "\<forall>r. fc_timestamp r = None \<or> fc_source_id r = None \<or>
          (\<exists>k. fc_source_id r = Some k \<and> id_to_session t k = None) \<longrightarrow>
          (\<forall>e \<in> set (function_call_events (id_to_session t) (columns (function_calls t)) r).
             e \<notin> set tline)"
  proof (intro allI impI ballI)
    fix r e
    assume miss: "fc_timestamp r = None \<or> fc_source_id r = None \<or>
          (\<exists>k. fc_source_id r = Some k \<and> id_to_session t k = None)"
      and e: "e \<in> set (function_call_events (id_to_session t) (columns (function_calls t)) r)"
    show "e \<notin> set tline"
    proof
      assume "e \<in> set tline"
      from mem[OF this] function_call_events_fields[OF e] miss show False by auto
    qed
  qed
  show "\<forall>r es. llm_events (columns (chat_completions t)) r = Inr es \<longrightarrow>
          (cc_session_id r = None \<longrightarrow> (\<forall>e \<in> set es. e \<notin> set tline)) \<and>
          (cc_start_time r = None \<longrightarrow>
             (\<forall>e \<in> set es. etype e = llm_call_start \<longrightarrow> e \<notin> set tline)) \<and>
          (cc_end_time r = None \<longrightarrow>
             (\<forall>e \<in> set es. etype e = llm_call_end \<longrightarrow> e \<notin> set tline))"
    using mem llm_events_fields by fastforce
qed

theorem missing_fields_are_skipped_witness:
  "list_all (\<lambda>r. \<exists>kvs. cc_request_dict r = JObj kvs) (rows (chat_completions demo)) \<and>
   ''end_time'' \<in> columns (chat_completions demo) \<and>
   (\<exists>m. build_unified_session_view demo = Inr m) \<and>
   build_unified_session_view demo = Inr (group_events demo_events) \<and>
   group_events demo_events (IdStr ''S1'') = Some demo_timeline \<and>
   cc_start_time cc_untimed_enriched = None \<and> cc_end_time cc_untimed_enriched = None \<and>
   llm_events (columns (chat_completions demo)) cc_untimed_enriched =
     Inr [llm_start_event enriched_columns cc_untimed_enriched (JStr ''Unknown''),
          llm_end_event enriched_columns cc_untimed_enriched] \<and>
   llm_start_event enriched_columns cc_untimed_enriched (JStr ''Unknown'') \<notin> set demo_timeline \<and>
   llm_end_event enriched_columns cc_untimed_enriched \<notin> set demo_timeline"
proof -
  have objs: "\<forall>r \<in> set (rows (chat_completions demo)). \<exists>kvs. cc_request_dict r = JObj kvs"
    by (simp add: demo_fields cc_call_enriched_def cc_call_def cc_untimed_enriched_def
          cc_untimed_def cc_blank_def)
  have col: "''end_time'' \<in> columns (chat_completions demo)"
    by (simp add: demo_fields enriched_columns_def cc_columns_def)
  have nulls: "cc_start_time cc_untimed_enriched = None" "cc_end_time cc_untimed_enriched = None"
    by (simp_all add: cc_untimed_enriched_def cc_untimed_def cc_blank_def)
  have evs: "llm_events (columns (chat_completions demo)) cc_untimed_enriched =
     Inr [llm_start_event enriched_columns cc_untimed_enriched (JStr ''Unknown''),
          llm_end_event enriched_columns cc_untimed_enriched]"
    by (simp add: demo_fields demo_untimed_events)
  note inst = missing_fields_are_skipped
               [of demo "group_events demo_events" "IdStr ''S1''" demo_timeline]
  from inst objs col have ret: "\<exists>m. build_unified_session_view demo = Inr m"
    by blast
  from inst demo_build demo_group evs nulls
  have "(\<forall>e \<in> set [llm_start_event enriched_columns cc_untimed_enriched (JStr ''Unknown''),
                   llm_end_event enriched_columns cc_untimed_enriched].
           etype e = llm_call_start \<longrightarrow> e \<notin> set demo_timeline) \<and>
        (\<forall>e \<in> set [llm_start_event enriched_columns cc_untimed_enriched (JStr ''Unknown''),
                   llm_end_event enriched_columns cc_untimed_enriched].
           etype e = llm_call_end \<longrightarrow> e \<notin> set demo_timeline)"
    by blast
  then have out: "llm_start_event enriched_columns cc_untimed_enriched (JStr ''Unknown'') \<notin>
                    set demo_timeline"
    "llm_end_event enriched_columns cc_untimed_enriched \<notin> set demo_timeline"
    by simp_all
  from objs have objs': "list_all (\<lambda>r. \<exists>kvs. cc_request_dict r = JObj kvs)
                           (rows (chat_completions demo))"
    unfolding list_all_iff .
  from objs' col ret demo_build demo_group nulls evs out show ?thesis by (intro conjI)
qed

section \<open>Properties of the session metrics\<close>

lemma scan_event_status:
  "scan_event py_str e s = Inr s' \<Longrightarrow>
   (scan_status s' = Failed \<longleftrightarrow> scan_status s = Failed \<or> reports_exit py_str e)"
  by (cases "details e") (auto simp: scan_event_def reports_exit_def Let_def split: if_splits)

lemma scan_events_status:
  "scan_events py_str es s = Inr s' \<Longrightarrow>
   (scan_status s' = Failed \<longleftrightarrow> scan_status s = Failed \<or> (\<exists>e \<in> set es. reports_exit py_str e))"
proof (induction es arbitrary: s)
  case Nil
  then show ?case by simp
next
  case (Cons e es)
  then obtain s1 where s1: "scan_event py_str e s = Inr s1" and rest: "scan_events py_str es s1 = Inr s'"
    by (auto split: sum.splits)
  from Cons.IH[OF rest] scan_event_status[OF s1] show ?case by auto
qed

lemma scan_event_returns:
  "(\<forall>q md w. details e = LlmCallStart q md w \<longrightarrow> hashable md) \<Longrightarrow>
   \<exists>s'. scan_event py_str e s = Inr s'"
  by (cases "details e") (auto simp: scan_event_def Let_def)

lemma scan_events_returns:
  "(\<forall>e \<in> set es. \<forall>q md w. details e = LlmCallStart q md w \<longrightarrow> hashable md) \<Longrightarrow>
   \<exists>s'. scan_events py_str es s = Inr s'"
proof (induction es arbitrary: s)
  case Nil
  then show ?case by simp
next
  case (Cons e es)
  then have "\<forall>q md w. details e = LlmCallStart q md w \<longrightarrow> hashable md" by simp
  from scan_event_returns[OF this] obtain s1 where s1: "scan_event py_str e s = Inr s1" by blast
  from Cons have "\<exists>s'. scan_events py_str es s1 = Inr s'" by simp
  then show ?case using s1 by simp
qed

lemma calculate_Some:
  assumes "calculate_session_metrics py_str float_sum sid es df = Inr (Some mt)"
  shows "es \<noteq> [] \<and> (\<exists>s. scan_events py_str es scan_start = Inr s \<and> status mt = scan_status s) \<and>
         ''session_id'' \<in> columns df \<and> ''cost'' \<in> columns df \<and> ''total_tokens'' \<in> columns df \<and>
         total_cost mt = cost_sum float_sum (session_cc sid (rows df)) \<and>
         total_tokens mt = token_sum (session_cc sid (rows df))"
  using assms
  by (cases es) (auto simp: calculate_session_metrics_def split: sum.splits if_splits)

lemma calculate_returns:
  assumes "es \<noteq> []"
    and "\<forall>e \<in> set es. \<forall>q md w. details e = LlmCallStart q md w \<longrightarrow> hashable md"
    and "''session_id'' \<in> columns df" and "''cost'' \<in> columns df"
    and "''total_tokens'' \<in> columns df"
  shows "\<exists>mt. calculate_session_metrics py_str float_sum sid es df = Inr (Some mt)"
proof -
  from scan_events_returns[OF assms(2)] obtain s where
    "scan_events py_str es scan_start = Inr s" by blast
  with assms show ?thesis
    by (cases es) (auto simp: calculate_session_metrics_def)
qed

lemma calculate_missing_column:
  assumes "es \<noteq> []" and "''total_tokens'' \<notin> columns df"
  shows "\<exists>err. calculate_session_metrics py_str float_sum sid es df = Inl err"
  using assms
  by (cases es) (auto simp: calculate_session_metrics_def split: sum.splits)

lemma status_rule:
  assumes "calculate_session_metrics py_str float_sum sid es df = Inr (Some mt)"
  shows "(status mt = Failed \<longleftrightarrow> (\<exists>e \<in> set es. etype e = event_received_message \<and> reports_exit py_str e)) \<and>
         (status mt = Completed \<longleftrightarrow> \<not> (\<exists>e \<in> set es. etype e = event_received_message \<and> reports_exit py_str e))"
proof -
  from calculate_Some[OF assms] obtain s where
    s: "scan_events py_str es scan_start = Inr s" and st: "status mt = scan_status s"
    by blast
  have ty: "\<And>e. reports_exit py_str e \<Longrightarrow> etype e = event_received_message"
    by (auto simp: reports_exit_def etype_def)
  from scan_events_status[OF s]
  have "scan_status s = Failed \<longleftrightarrow> (\<exists>e \<in> set es. reports_exit py_str e)"
    by (simp add: scan_start_def)
  then have f: "status mt = Failed \<longleftrightarrow>
      (\<exists>e \<in> set es. etype e = event_received_message \<and> reports_exit py_str e)"
    using st ty by auto
  moreover have "status mt = Completed \<longleftrightarrow> status mt \<noteq> Failed"
    by (cases "status mt") simp_all
  ultimately show ?thesis by simp
qed

lemma session_cc_split:
  "cc_session_id r = Some sid \<Longrightarrow>
   session_cc sid (xs @ r # ys) =
     filter (\<lambda>x. cc_session_id x = Some sid) xs @ r # filter (\<lambda>x. cc_session_id x = Some sid) ys"
  by (simp add: session_cc_def)

lemma int64_fits: "fits_int64 n \<Longrightarrow> int64 n = n"
  by (simp add: int64_def fits_int64_def)

lemma token_sum_wraps:
  "token_sum [cc_blank\<lparr>cc_total_tokens := 2 ^ 62\<rparr>, cc_blank\<lparr>cc_total_tokens := 2 ^ 62\<rparr>] =
     - (2 ^ 63)"
  by (simp add: token_sum_def int64_def)

lemma enrich_columns:
  assumes "enrich f cc = Inr cc'" and "rows cc \<noteq> []"
  shows "''cost'' \<in> columns cc' \<and> ''total_tokens'' \<in> columns cc' \<and> rows cc' \<noteq> []"
proof -
  from enrich_rows[OF assms] obtain named rs where
    named: "set_source_name f cc = Inr named"
    and rs: "apply_rows set_tokens named = Inr rs"
    and out: "rows cc' = map set_ratios rs"
    by blast
  from set_source_name_Inr[OF named] have "length named = length (rows cc)" by simp
  with apply_rows_Inr[OF rs] assms(2) have "rows cc' \<noteq> []" using out by auto
  moreover from assms have "''cost'' \<in> columns cc' \<and> ''total_tokens'' \<in> columns cc'"
    by (auto simp: enrich_def split: if_splits sum.splits)
  ultimately show ?thesis by simp
qed

lemma load_database_columns:
  assumes "load_database f raw = Some t" and "rows (chat_completions t) \<noteq> []"
  shows "''cost'' \<in> columns (chat_completions t) \<and> ''total_tokens'' \<in> columns (chat_completions t)"
proof -
  from assms(1) have en: "enrich f (chat_completions raw) = Inr (chat_completions t)"
    by (auto simp: load_database_def load_database_body_def split: sum.splits)
  show ?thesis
  proof (cases "rows (chat_completions raw) = []")
    case True
    then have "chat_completions t = chat_completions raw" using en by (simp add: enrich_def)
    with True assms(2) show ?thesis by simp
  next
    case False
    from enrich_columns[OF en False] show ?thesis by simp
  qed
qed

lemma timeline_nonempty:
  assumes "build_unified_session_view t = Inr m" and "m s = Some tline"
  shows "tline \<noteq> []"
proof -
  from build_Inr[OF assms(1)] obtain es where "m = group_events es" by blast
  with assms(2) show ?thesis by (auto simp: group_events_timeline split: if_splits)
qed

lemma llm_events_untimed:
  assumes "llm_events cols r = Inr es" and "e \<in> set es"
    and "cc_start_time r = None" and "cc_end_time r = None"
  shows "timestamp e = None"
  using assms
  by (auto simp: llm_events_def llm_start_event_def llm_end_event_def split: if_splits sum.splits)

lemma demo_hashable:
  "\<forall>e \<in> set demo_timeline. \<forall>q md w. details e = LlmCallStart q md w \<longrightarrow> hashable md"
  by (simp add: demo_timeline_def ev_wrapper_def ev_client_def ev_agent_def ev_start_def
        ev_message_def ev_end_def ev_lookup_def)

lemma demo_silent_loads: "load_database f demo_silent = Some demo_silent"
  by (simp add: load_database_def load_database_body_def enrich_def demo_silent_def)

lemma demo_silent_timeline:
  "session_timeline demo_silent (IdStr ''S1'') =
     Inr (Some [ev_wrapper, ev_client, ev_agent, ev_message, ev_lookup])"
  by (simp add: session_timeline_def build_unified_session_view_def demo_silent_def
        demo_with_chats group_events_def demo_timestamps append_event_def demo_sessions)

lemma demo_message_reports_exit: "reports_exit str_plain ev_message"
proof -
  have "sublist ''exitcode''
          (str_plain (JObj [(''message'', JStr ''exitcode: 1 (execution failed)'')]))"
    by code_simp
  then show ?thesis by (simp add: reports_exit_def ev_message_def)
qed

lemma demo_other_events:
  "llm_events enriched_columns cc_other_enriched =
     Inr [llm_start_event enriched_columns cc_other_enriched (JStr ''Unknown''),
          llm_end_event enriched_columns cc_other_enriched]"
  by (simp add: llm_events_def enriched_columns_def cc_columns_def cc_other_enriched_def
        cc_other_def cc_untimed_def cc_blank_def)

lemma demo_other_timestamps:
  "timestamp (llm_start_event cols cc_other_enriched model) = None"
  "timestamp (llm_end_event cols cc_other_enriched) = None"
  by (simp_all add: llm_start_event_def llm_end_event_def cc_other_enriched_def cc_other_def
        cc_untimed_def cc_blank_def)

lemma demo_shared_build:
  "build_unified_session_view demo_shared = Inr (group_events demo_shared_events)"
  by (simp add: build_unified_session_view_def demo_shared_def demo_with_chats
        demo_call_events demo_other_events demo_untimed_events demo_shared_events_def)

lemma demo_shared_group: "group_events demo_shared_events (IdStr ''S1'') = Some demo_timeline"
  by (simp add: demo_shared_events_def demo_timeline_def group_events_def demo_timestamps
        demo_other_timestamps append_event_def demo_sessions)

text \<open>
  C10. For tables that \<open>load_database\<close> returned and a session of the mapping, the metrics
  count the cost and the tokens of every chat-completion row that carries the session id,
  and of no other row: for such a row \<open>r\<close>, \<open>total_cost\<close> is the float sum of the cost
  cells of the rows with that session id, the cell of \<open>r\<close> among them at its place in the
  table, and \<open>total_tokens\<close> is the 64-bit sum of \<open>r\<close>'s tokens and those of the other rows
  with that session id, which is their sum unless it overflows 64 bits. This holds also
  when \<open>r\<close> has no timestamps and none of its events is in the timeline. The metrics are
  returned when the table has its \<open>session_id\<close> column and the model names of the timeline
  can be put in a set; the counts of the table fit in 64 bits, so that its token columns
  are int64.
\<close>

theorem raw_rows_count_in_totals:
  assumes loaded: "load_database f raw = Some t"
    and build: "build_unified_session_view t = Inr m" and tl: "m s = Some tline"
    and split: "rows (chat_completions t) = xs @ r # ys" and sess: "cc_session_id r = Some s"
    and col: "''session_id'' \<in> columns (chat_completions t)"
    and hash: "\<forall>e \<in> set tline. \<forall>q md w. details e = LlmCallStart q md w \<longrightarrow> hashable md"
    and width: "\<forall>x \<in> set (rows (chat_completions t)).
                  fits_int64 (cc_total_tokens x) \<and> fits_int64 (cc_prompt_tokens x) \<and>
                  fits_int64 (cc_completion_tokens x)"
  shows "\<exists>mt. session_metrics_of py_str float_sum t s = Inr (Some mt) \<and>
           total_cost mt =
             float_sum (map cc_cost (filter (\<lambda>x. cc_session_id x = Some s) xs) @ cc_cost r #
                        map cc_cost (filter (\<lambda>x. cc_session_id x = Some s) ys)) \<and>
           total_tokens mt =
             int64 (cc_total_tokens r +
                    sum_list (map cc_total_tokens (filter (\<lambda>x. cc_session_id x = Some s) (xs @ ys)))) \<and>
           (fits_int64 (cc_total_tokens r +
                    sum_list (map cc_total_tokens (filter (\<lambda>x. cc_session_id x = Some s) (xs @ ys)))) \<longrightarrow>
            total_tokens mt =
              cc_total_tokens r +
              sum_list (map cc_total_tokens (filter (\<lambda>x. cc_session_id x = Some s) (xs @ ys)))) \<and>
           (cc_start_time r = None \<longrightarrow> cc_end_time r = None \<longrightarrow>
              (\<forall>es. llm_events (columns (chat_completions t)) r = Inr es \<longrightarrow>
                    (\<forall>e \<in> set es. e \<notin> set tline)))"
proof -
  let ?mine = "\<lambda>x. cc_session_id x = Some s"
  let ?others = "sum_list (map cc_total_tokens (filter ?mine (xs @ ys)))"
  have ne: "rows (chat_completions t) \<noteq> []" using split by simp
  from load_database_columns[OF loaded ne] have
    cols: "''cost'' \<in> columns (chat_completions t)" "''total_tokens'' \<in> columns (chat_completions t)"
    by simp_all
  from calculate_returns[OF timeline_nonempty[OF build tl] hash col cols]
  obtain mt where
    mt: "calculate_session_metrics py_str float_sum s tline (chat_completions t) = Inr (Some mt)"
    by blast
  have run: "session_metrics_of py_str float_sum t s = Inr (Some mt)"
    by (simp add: session_metrics_of_def build tl mt)
  have rows: "session_cc s (rows (chat_completions t)) = filter ?mine xs @ r # filter ?mine ys"
    unfolding split by (rule session_cc_split[OF sess])
  from calculate_Some[OF mt] have
    "total_cost mt = cost_sum float_sum (session_cc s (rows (chat_completions t)))"
    "total_tokens mt = token_sum (session_cc s (rows (chat_completions t)))"
    by simp_all
  then have cost: "total_cost mt =
             float_sum (map cc_cost (filter ?mine xs) @ cc_cost r # map cc_cost (filter ?mine ys))"
    and tokens: "total_tokens mt = int64 (cc_total_tokens r + ?others)"
    unfolding rows by (simp_all add: cost_sum_def token_sum_def add.left_commute)
  have exact: "fits_int64 (cc_total_tokens r + ?others) \<longrightarrow>
               total_tokens mt = cc_total_tokens r + ?others"
    using tokens int64_fits by simp
  have gone: "cc_start_time r = None \<longrightarrow> cc_end_time r = None \<longrightarrow>
              (\<forall>es. llm_events (columns (chat_completions t)) r = Inr es \<longrightarrow>
                    (\<forall>e \<in> set es. e \<notin> set tline))"
  proof (intro impI allI ballI)
    fix es e
    assume n1: "cc_start_time r = None" and n2: "cc_end_time r = None"
      and es: "llm_events (columns (chat_completions t)) r = Inr es" and e: "e \<in> set es"
    from llm_events_untimed[OF es e n1 n2] have "timestamp e = None" .
    then show "e \<notin> set tline" using timeline_member[OF build tl, of e] by auto
  qed
  show ?thesis
    using run cost tokens exact gone by (intro exI[of _ mt] conjI)
qed

theorem raw_rows_count_in_totals_witness:
  "load_database names_kept demo_shared_raw = Some demo_shared \<and>
   build_unified_session_view demo_shared = Inr (group_events demo_shared_events) \<and>
   group_events demo_shared_events (IdStr ''S1'') = Some demo_timeline \<and>
   rows (chat_completions demo_shared) =
     [cc_call_enriched, cc_other_enriched] @ cc_untimed_enriched # [] \<and>
   cc_session_id cc_call_enriched = Some (IdStr ''S1'') \<and>
   cc_cost cc_call_enriched = Some (2 / 100) \<and> cc_total_tokens cc_call_enriched = 100 \<and>
   cc_session_id cc_other_enriched = Some (IdStr ''S2'') \<and>
   cc_cost cc_other_enriched = Some (9 / 100) \<and> cc_total_tokens cc_other_enriched = 11 \<and>
   cc_session_id cc_untimed_enriched = Some (IdStr ''S1'') \<and>
   cc_cost cc_untimed_enriched = Some (5 / 100) \<and> cc_total_tokens cc_untimed_enriched = 0 \<and>
   cc_start_time cc_untimed_enriched = None \<and> cc_end_time cc_untimed_enriched = None \<and>
   llm_call_start \<in> set (map etype demo_timeline) \<and>
   (\<forall>float_sum. \<exists>mt.
      session_metrics_of str_plain float_sum demo_shared (IdStr ''S1'') = Inr (Some mt) \<and>
      total_cost mt = float_sum [Some (2 / 100), Some (5 / 100)] \<and> total_tokens mt = 100 \<and>
      (\<forall>es. llm_events (columns (chat_completions demo_shared)) cc_untimed_enriched = Inr es \<longrightarrow>
            (\<forall>e \<in> set es. e \<notin> set demo_timeline)))"
proof -
  have loaded: "load_database names_kept demo_shared_raw = Some demo_shared"
    by (simp add: load_database_def load_demo_shared_raw)
  have cc: "chat_completions demo_shared =
      \<lparr>columns = enriched_columns,
       rows = [cc_call_enriched, cc_other_enriched, cc_untimed_enriched]\<rparr>"
    by (simp add: demo_shared_def)
  have split: "rows (chat_completions demo_shared) =
      [cc_call_enriched, cc_other_enriched] @ cc_untimed_enriched # []"
    by (simp add: cc)
  have call: "cc_session_id cc_call_enriched = Some (IdStr ''S1'')"
    "cc_cost cc_call_enriched = Some (2 / 100)" "cc_total_tokens cc_call_enriched = 100"
    "cc_prompt_tokens cc_call_enriched = 60" "cc_completion_tokens cc_call_enriched = 40"
    by (simp_all add: cc_call_enriched_def cc_call_def cc_blank_def)
  have other: "cc_session_id cc_other_enriched = Some (IdStr ''S2'')"
    "cc_cost cc_other_enriched = Some (9 / 100)" "cc_total_tokens cc_other_enriched = 11"
    "cc_prompt_tokens cc_other_enriched = 0" "cc_completion_tokens cc_other_enriched = 0"
    by (simp_all add: cc_other_enriched_def cc_other_def cc_untimed_def cc_blank_def)
  have row: "cc_session_id cc_untimed_enriched = Some (IdStr ''S1'')"
    "cc_cost cc_untimed_enriched = Some (5 / 100)" "cc_total_tokens cc_untimed_enriched = 0"
    "cc_prompt_tokens cc_untimed_enriched = 0" "cc_completion_tokens cc_untimed_enriched = 0"
    "cc_start_time cc_untimed_enriched = None" "cc_end_time cc_untimed_enriched = None"
    by (simp_all add: cc_untimed_enriched_def cc_untimed_def cc_blank_def)
  have col: "''session_id'' \<in> columns (chat_completions demo_shared)"
    by (simp add: cc enriched_columns_def cc_columns_def)
  have width: "\<forall>x \<in> set (rows (chat_completions demo_shared)).
                  fits_int64 (cc_total_tokens x) \<and> fits_int64 (cc_prompt_tokens x) \<and>
                  fits_int64 (cc_completion_tokens x)"
    by (simp add: cc call other row fits_int64_def)
  have start: "llm_call_start \<in> set (map etype demo_timeline)"
    by (simp add: demo_timeline_def etype_def ev_start_def)
  have metrics: "\<exists>mt.
      session_metrics_of str_plain float_sum demo_shared (IdStr ''S1'') = Inr (Some mt) \<and>
      total_cost mt = float_sum [Some (2 / 100), Some (5 / 100)] \<and> total_tokens mt = 100 \<and>
      (\<forall>es. llm_events (columns (chat_completions demo_shared)) cc_untimed_enriched = Inr es \<longrightarrow>
            (\<forall>e \<in> set es. e \<notin> set demo_timeline))" for float_sum
  proof -
    from raw_rows_count_in_totals[OF loaded demo_shared_build demo_shared_group split row(1) col
           demo_hashable width, of str_plain float_sum]
    obtain mt where
      "session_metrics_of str_plain float_sum demo_shared (IdStr ''S1'') = Inr (Some mt) \<and>
       total_cost mt =
         float_sum (map cc_cost (filter (\<lambda>x. cc_session_id x = Some (IdStr ''S1''))
                                   [cc_call_enriched, cc_other_enriched]) @
                    cc_cost cc_untimed_enriched #
                    map cc_cost (filter (\<lambda>x. cc_session_id x = Some (IdStr ''S1''))
                                   ([] :: cc_row list))) \<and>
       total_tokens mt =
         int64 (cc_total_tokens cc_untimed_enriched +
                sum_list (map cc_total_tokens
                  (filter (\<lambda>x. cc_session_id x = Some (IdStr ''S1''))
                     ([cc_call_enriched, cc_other_enriched] @ [])))) \<and>
       (fits_int64 (cc_total_tokens cc_untimed_enriched +
                sum_list (map cc_total_tokens
                  (filter (\<lambda>x. cc_session_id x = Some (IdStr ''S1''))
                     ([cc_call_enriched, cc_other_enriched] @ [])))) \<longrightarrow>
        total_tokens mt =
          cc_total_tokens cc_untimed_enriched +
          sum_list (map cc_total_tokens
            (filter (\<lambda>x. cc_session_id x = Some (IdStr ''S1''))
               ([cc_call_enriched, cc_other_enriched] @ [])))) \<and>
       (cc_start_time cc_untimed_enriched = None \<longrightarrow> cc_end_time cc_untimed_enriched = None \<longrightarrow>
         (\<forall>es. llm_events (columns (chat_completions demo_shared)) cc_untimed_enriched = Inr es \<longrightarrow>
               (\<forall>e \<in> set es. e \<notin> set demo_timeline)))" ..
    then have mt:
      "session_metrics_of str_plain float_sum demo_shared (IdStr ''S1'') = Inr (Some mt)"
      "total_cost mt =
         float_sum (map cc_cost (filter (\<lambda>x. cc_session_id x = Some (IdStr ''S1''))
                                   [cc_call_enriched, cc_other_enriched]) @
                    cc_cost cc_untimed_enriched #
                    map cc_cost (filter (\<lambda>x. cc_session_id x = Some (IdStr ''S1''))
                                   ([] :: cc_row list)))"
      "total_tokens mt =
         int64 (cc_total_tokens cc_untimed_enriched +
                sum_list (map cc_total_tokens
                  (filter (\<lambda>x. cc_session_id x = Some (IdStr ''S1''))
                     ([cc_call_enriched, cc_other_enriched] @ []))))"
      "cc_start_time cc_untimed_enriched = None \<longrightarrow> cc_end_time cc_untimed_enriched = None \<longrightarrow>
         (\<forall>es. llm_events (columns (chat_completions demo_shared)) cc_untimed_enriched = Inr es \<longrightarrow>
               (\<forall>e \<in> set es. e \<notin> set demo_timeline))"
      by blast+
    have m2: "total_cost mt = float_sum [Some (2 / 100), Some (5 / 100)]"
      using mt(2) by (simp add: call other row)
    have m3: "total_tokens mt = 100"
      using mt(3) by (simp add: call other row int64_def)
    have m4: "\<forall>es. llm_events (columns (chat_completions demo_shared)) cc_untimed_enriched = Inr es \<longrightarrow>
               (\<forall>e \<in> set es. e \<notin> set demo_timeline)"
      using mt(4) row(6,7) by blast
    show ?thesis using mt(1) m2 m3 m4 by (intro exI[of _ mt] conjI)
  qed
  show ?thesis
    using loaded demo_shared_build demo_shared_group split call(1,2,3) other(1,2,3) row(1,2,3,6,7)
      start metrics
    by (intro conjI allI)
qed

text \<open>
  C4 on a database without chat completions. \<open>load_database\<close> adds \<open>total_tokens\<close> only
  to a table with rows, and \<open>calculate_session_metrics\<close> reads that column after its loop:
  for the session \<open>S1\<close>, whose timeline holds a received message with \<open>exitcode\<close> in its
  payload, no status is returned; the call raises \<open>KeyError\<close>. Where metrics are returned
  the status follows the rule (\<open>status_rule\<close>).
\<close>

theorem status_lost_without_chat_completions:
  "load_database f demo_silent = Some demo_silent \<and>
   session_timeline demo_silent (IdStr ''S1'') =
     Inr (Some [ev_wrapper, ev_client, ev_agent, ev_message, ev_lookup]) \<and>
   etype ev_message = event_received_message \<and> reports_exit str_plain ev_message \<and>
   session_metrics_of str_plain float_sum demo_silent (IdStr ''S1'') = Inl KeyError"
proof -
  have "build_unified_session_view demo_silent =
          Inr (group_events [ev_agent, ev_message, ev_lookup, ev_client, ev_wrapper])"
    by (simp add: build_unified_session_view_def demo_silent_def demo_with_chats)
  moreover have "group_events [ev_agent, ev_message, ev_lookup, ev_client, ev_wrapper] (IdStr ''S1'') =
          Some [ev_wrapper, ev_client, ev_agent, ev_message, ev_lookup]"
    by (simp add: group_events_def demo_timestamps append_event_def demo_sessions)
  moreover have "calculate_session_metrics str_plain float_sum (IdStr ''S1'')
          [ev_wrapper, ev_client, ev_agent, ev_message, ev_lookup] (chat_completions demo_silent) =
        Inl KeyError"
    by (simp add: calculate_session_metrics_def scan_event_def scan_start_def
          ev_wrapper_def ev_client_def ev_agent_def ev_message_def ev_lookup_def
          demo_silent_def cc_columns_def Let_def)
  ultimately have "session_metrics_of str_plain float_sum demo_silent (IdStr ''S1'') = Inl KeyError"
    by (simp add: session_metrics_of_def)
  moreover have "etype ev_message = event_received_message"
    by (simp add: etype_def ev_message_def)
  ultimately show ?thesis
    using demo_silent_loads demo_silent_timeline demo_message_reports_exit by blast
qed

text \<open>
  C5 on the same database. The session has no chat-completion row, so both sums are 0,
  but no metrics are returned: the column \<open>total_tokens\<close> is missing from the empty table
  and reading it raises \<open>KeyError\<close>. Where metrics are returned the two totals are the sums
  over the rows of the session (\<open>calculate_Some\<close>).
\<close>

theorem totals_lost_without_chat_completions:
  "rows (chat_completions demo_silent) = [] \<and>
   cost_sum float_sum (session_cc (IdStr ''S1'') (rows (chat_completions demo_silent))) = Fin 0 \<and>
   token_sum (session_cc (IdStr ''S1'') (rows (chat_completions demo_silent))) = 0 \<and>
   calculate_session_metrics str_plain float_sum (IdStr ''S1'') [ev_agent]
     (chat_completions demo_silent) = Inl KeyError"
  by (simp add: calculate_session_metrics_def scan_event_def scan_start_def ev_agent_def
        demo_silent_def cc_columns_def Let_def cost_sum_def token_sum_def session_cc_def
        int64_def)

end
